theory Spec2Isabelle
  imports Complex_Main
begin

section \<open>Conventions\<close>

text \<open>
  The analytics engine is TypeScript/JavaScript. Its numbers are modelled as \<^typ>\<open>real\<close>
  (timestamps of \<open>Date.now()\<close> as \<^typ>\<open>int\<close> milliseconds, counters as \<^typ>\<open>nat\<close>),
  an optional field (\<open>undefined\<close> when absent) as an \<^typ>\<open>'a option\<close>, mutable module or
  closure variables as a record that every function takes and returns, and an exception
  as the \<open>Inl\<close> side of a sum. Rounding of doubles is not modelled. A division by zero
  yields \<open>NaN\<close> or an infinity in the source and 0 in HOL: \<open>computeRMS\<close> returns \<open>None\<close>
  where the source divides by zero, the controller's ratios are guarded in the source
  itself, and the face geometry says where it can divide by zero.
\<close>

section \<open>Audio worklet: \<open>public/worklets/analyzer.worklet.js\<close>\<close>

definition MIN_PITCH_HZ :: real where
  "MIN_PITCH_HZ = 75"

definition MAX_PITCH_HZ :: real where
  "MAX_PITCH_HZ = 400"

text \<open>The accumulation loop \<open>sum += samples[i] * samples[i]\<close>, left to right.\<close>

definition energy_of :: "real list \<Rightarrow> real" where
  "energy_of samples = foldl (\<lambda>acc v. acc + v * v) 0 samples"

text \<open>
  \<open>computeRMS\<close>: \<open>Math.sqrt(sum / samples.length)\<close>. On an empty frame the source
  divides zero by zero and returns \<open>NaN\<close>, which is \<open>None\<close> here.
\<close>

definition computeRMS :: "real list \<Rightarrow> real option" where
  "computeRMS samples =
     (if length samples = 0 then None
      else Some (sqrt (energy_of samples / real (length samples))))"

text \<open>
  The inner loop of \<open>computePitch\<close>:
  \<open>for (i = 0; i < samples.length - period; i++) corr += samples[i] * samples[i + period]\<close>.
\<close>

definition autocorr :: "real list \<Rightarrow> nat \<Rightarrow> real" where
  "autocorr samples period =
     foldl (\<lambda>corr i. corr + samples ! i * samples ! (i + period)) 0
       [0 ..< length samples - period]"

text \<open>One round of the outer loop on the pair \<open>(maxCorr, bestPeriod)\<close>.\<close>

definition pitch_step :: "real list \<Rightarrow> real \<times> nat \<Rightarrow> nat \<Rightarrow> real \<times> nat" where
  "pitch_step samples best period =
     (let corr = autocorr samples period
      in if corr > fst best then (corr, period) else best)"

text \<open>
  \<open>computePitch(samples, sampleRate)\<close>. The sample rate is the audio context's, a positive
  number (48000 by default), so both floors are natural numbers.
\<close>

definition computePitch :: "real list \<Rightarrow> real \<Rightarrow> real" where
  "computePitch samples sampleRate =
     (let minPeriod = nat \<lfloor>sampleRate / MAX_PITCH_HZ\<rfloor>;
          maxPeriod = nat \<lfloor>sampleRate / MIN_PITCH_HZ\<rfloor>;
          best = foldl (pitch_step samples) (0, 0) [minPeriod ..< Suc maxPeriod];
          maxCorr = fst best;
          bestPeriod = snd best;
          energy = energy_of samples
      in if maxCorr < energy * 0.3 \<or> bestPeriod = 0 then 0
         else sampleRate / real bestPeriod)"

section \<open>Face worker: \<open>workers/faceWorker.ts\<close>\<close>

record point =
  pt_x :: real
  pt_y :: real

text \<open>An entry of \<open>gazePositions\<close>: \<open>{ x, y, t }\<close>.\<close>

record gaze_sample =
  gz_x :: real
  gz_y :: real
  gz_t :: int

text \<open>The worker's reply for one frame (\<open>FaceAnalysisMessage\<close>).\<close>

record FaceAnalysisMessage =
  fm_yaw :: real
  fm_pitch :: real
  fm_blinkPerMin :: real
  fm_smile :: real
  fm_gazeJitter :: real

text \<open>The module-level variables of the worker.\<close>

record worker_state =
  isInitialized :: bool
  faceMesh :: bool
  blinkTimestamps :: "int list"
  gazePositions :: "gaze_sample list"
  lastEyeAspectRatio :: real
  blinkCount :: nat

text \<open>Their values when the module is loaded.\<close>

definition worker_loaded :: worker_state where
  "worker_loaded =
     \<lparr>isInitialized = False, faceMesh = False, blinkTimestamps = [], gazePositions = [],
      lastEyeAspectRatio = 1, blinkCount = 0\<rparr>"

text \<open>After \<open>initFaceMesh\<close> has succeeded.\<close>

definition worker_ready :: worker_state where
  "worker_ready = worker_loaded\<lparr>isInitialized := True, faceMesh := True\<rparr>"

datatype worker_error = NotInitialized

definition LEFT_EYE_INDICES :: "nat list" where
  "LEFT_EYE_INDICES = [33, 160, 158, 133, 153, 144]"

definition RIGHT_EYE_INDICES :: "nat list" where
  "RIGHT_EYE_INDICES = [362, 385, 387, 263, 373, 380]"

definition MOUTH_INDICES :: "nat list" where
  "MOUTH_INDICES = [61, 291, 0, 17]"

definition NOSE_TIP :: nat where
  "NOSE_TIP = 1"

definition NOSE_BRIDGE :: nat where
  "NOSE_BRIDGE = 6"

text \<open>\<open>landmarks[i]\<close>: \<open>undefined\<close> past the end of the array.\<close>

definition landmark_at :: "point list \<Rightarrow> nat \<Rightarrow> point option" where
  "landmark_at landmarks i = (if i < length landmarks then Some (landmarks ! i) else None)"

text \<open>\<open>INDICES.map((i) => landmarks[i]).filter(Boolean)\<close>.\<close>

definition pick_points :: "point list \<Rightarrow> nat list \<Rightarrow> point list" where
  "pick_points landmarks indices = List.map_filter (landmark_at landmarks) indices"

definition distance :: "point \<Rightarrow> point \<Rightarrow> real" where
  "distance p1 p2 = sqrt ((pt_x p1 - pt_x p2)\<^sup>2 + (pt_y p1 - pt_y p2)\<^sup>2)"

text \<open>
  \<open>calculateEAR\<close>, \<open>calculateMAR\<close> and \<open>calculateHeadPose\<close>. A landmark set whose eye
  corners coincide divides by zero in the source: the eye-aspect ratio is then an
  infinity or \<open>NaN\<close> (neither registers a blink) and the yaw is an infinity clamped to
  \<open>\<plusminus>90\<close> or \<open>NaN\<close>, where HOL's division gives 0. The definitions below are the source's
  only where the denominators (the eye width, \<open>|leftEye.x - rightEye.x|\<close> and
  \<open>|leftEye.y - noseTip.y|\<close>) are not zero, and no statement below evaluates the geometry
  elsewhere.
\<close>

definition calculateEAR :: "point list \<Rightarrow> real" where
  "calculateEAR eyePoints =
     (if length eyePoints < 6 then 1
      else
        (let vertical1 = distance (eyePoints ! 1) (eyePoints ! 5);
             vertical2 = distance (eyePoints ! 2) (eyePoints ! 4);
             horizontal = distance (eyePoints ! 0) (eyePoints ! 3)
         in (vertical1 + vertical2) / (2 * horizontal)))"

definition calculateMAR :: "point list \<Rightarrow> real" where
  "calculateMAR mouthPoints =
     (if length mouthPoints < 4 then 0
      else
        (let width = \<bar>pt_x (mouthPoints ! 0) - pt_x (mouthPoints ! 1)\<bar>;
             height = \<bar>pt_y (mouthPoints ! 2) - pt_y (mouthPoints ! 3)\<bar>
         in width / (height + 0.001)))"

definition calculateHeadPose :: "point list \<Rightarrow> real \<times> real" where
  "calculateHeadPose landmarks =
     (if length landmarks < 10 then (0, 0)
      else
        (case (landmark_at landmarks NOSE_TIP, landmark_at landmarks NOSE_BRIDGE,
               landmark_at landmarks (LEFT_EYE_INDICES ! 0),
               landmark_at landmarks (RIGHT_EYE_INDICES ! 0)) of
           (Some noseTip, Some noseBridge, Some leftEye, Some rightEye) \<Rightarrow>
             (let eyeCenterX = (pt_x leftEye + pt_x rightEye) / 2;
                  yawRatio = (pt_x noseTip - eyeCenterX) / \<bar>pt_x leftEye - pt_x rightEye\<bar>;
                  yaw = yawRatio * 45;
                  pitchRatio = (pt_y noseTip - pt_y noseBridge) / \<bar>pt_y leftEye - pt_y noseTip\<bar>;
                  pitch = pitchRatio * 30
              in (max (- 90) (min 90 yaw), max (- 45) (min 45 pitch)))
         | _ \<Rightarrow> (0, 0)))"

definition BLINK_THRESHOLD :: real where
  "BLINK_THRESHOLD = 0.25"

definition BLINK_WINDOW_MS :: int where
  "BLINK_WINDOW_MS = 60000"

text \<open>
  \<open>updateBlinkRate(ear, currentTime)\<close>: the down-crossing test, the store of the last
  ratio, the eviction loop \<open>while (length > 0 && blinkTimestamps[0] < cutoff) shift()\<close>,
  and the number of timestamps left as the result.
\<close>

definition updateBlinkRate :: "worker_state \<Rightarrow> real \<Rightarrow> int \<Rightarrow> nat \<times> worker_state" where
  "updateBlinkRate s ear currentTime =
     (let s1 = (if lastEyeAspectRatio s > BLINK_THRESHOLD \<and> ear \<le> BLINK_THRESHOLD
                then s\<lparr>blinkCount := blinkCount s + 1,
                       blinkTimestamps := blinkTimestamps s @ [currentTime]\<rparr>
                else s);
          s2 = s1\<lparr>lastEyeAspectRatio := ear\<rparr>;
          cutoff = currentTime - BLINK_WINDOW_MS;
          s3 = s2\<lparr>blinkTimestamps := dropWhile (\<lambda>t. t < cutoff) (blinkTimestamps s2)\<rparr>
      in (length (blinkTimestamps s3), s3))"

definition GAZE_WINDOW_MS :: int where
  "GAZE_WINDOW_MS = 5000"

definition calculateGazeJitter ::
  "worker_state \<Rightarrow> point list \<Rightarrow> int \<Rightarrow> real \<times> worker_state" where
  "calculateGazeJitter s landmarks currentTime =
     (if length landmarks < 400 then (0, s)
      else
        (case (landmark_at landmarks (LEFT_EYE_INDICES ! 0),
               landmark_at landmarks (RIGHT_EYE_INDICES ! 0)) of
           (Some leftEye, Some rightEye) \<Rightarrow>
             (let eyeCenter = \<lparr>gz_x = (pt_x leftEye + pt_x rightEye) / 2,
                               gz_y = (pt_y leftEye + pt_y rightEye) / 2,
                               gz_t = currentTime\<rparr>;
                  cutoff = currentTime - GAZE_WINDOW_MS;
                  kept = dropWhile (\<lambda>p. gz_t p < cutoff) (gazePositions s @ [eyeCenter]);
                  s' = s\<lparr>gazePositions := kept\<rparr>
              in if length kept < 2 then (0, s')
                 else
                   (let n = real (length kept);
                        meanX = foldl (\<lambda>acc p. acc + gz_x p) 0 kept / n;
                        meanY = foldl (\<lambda>acc p. acc + gz_y p) 0 kept / n;
                        variance =
                          foldl (\<lambda>acc p. acc + (gz_x p - meanX)\<^sup>2 + (gz_y p - meanY)\<^sup>2) 0 kept / n
                    in (sqrt variance * 1000, s')))
         | _ \<Rightarrow> (0, s)))"

text \<open>
  What \<open>faceMesh.estimateFaces\<close> can do: throw, return \<open>null\<close>/\<open>undefined\<close>, or return an
  array of faces. A face carries its landmarks as \<open>keypoints\<close> or as \<open>scaledMesh\<close>.
\<close>

record face =
  keypoints :: "point list option"
  scaledMesh :: "point list option"

datatype estimate = EstimateThrows | EstimateNull | Faces "face list"

text \<open>The record returned on the no-face path and in the \<open>catch\<close> block.\<close>

definition neutral_result :: FaceAnalysisMessage where
  "neutral_result =
     \<lparr>fm_yaw = 0, fm_pitch = 0, fm_blinkPerMin = 0, fm_smile = 0, fm_gazeJitter = 0\<rparr>"

text \<open>\<open>face.keypoints || face.scaledMesh || []\<close> (an empty array is truthy).\<close>

definition landmarks_of :: "face \<Rightarrow> point list" where
  "landmarks_of f =
     (case keypoints f of Some k \<Rightarrow> k
      | None \<Rightarrow> (case scaledMesh f of Some m \<Rightarrow> m | None \<Rightarrow> []))"

text \<open>The body of \<open>analyzeFrame\<close> once a face has been found.\<close>

definition analyzeFace ::
  "worker_state \<Rightarrow> int \<Rightarrow> face \<Rightarrow> FaceAnalysisMessage \<times> worker_state" where
  "analyzeFace s currentTime f =
     (let landmarks = landmarks_of f;
          pose = calculateHeadPose landmarks;
          leftEAR = calculateEAR (pick_points landmarks LEFT_EYE_INDICES);
          rightEAR = calculateEAR (pick_points landmarks RIGHT_EYE_INDICES);
          avgEAR = (leftEAR + rightEAR) / 2;
          blink = updateBlinkRate s avgEAR currentTime;
          mar = calculateMAR (pick_points landmarks MOUTH_INDICES);
          smile = min 1 (max 0 ((mar - 3) / 2));
          gaze = calculateGazeJitter (snd blink) landmarks currentTime
      in (\<lparr>fm_yaw = fst pose, fm_pitch = snd pose, fm_blinkPerMin = real (fst blink),
           fm_smile = smile, fm_gazeJitter = fst gaze\<rparr>, snd gaze))"

text \<open>
  \<open>analyzeFrame(bitmap)\<close> at time \<open>currentTime = Date.now()\<close>, given what the detector
  does on the bitmap. It throws when the detector is not initialised; a detector
  exception is caught and answered with the neutral record.
\<close>

definition analyzeFrame ::
  "worker_state \<Rightarrow> int \<Rightarrow> estimate \<Rightarrow> worker_error + FaceAnalysisMessage \<times> worker_state" where
  "analyzeFrame s currentTime est =
     (if \<not> isInitialized s \<or> \<not> faceMesh s then Inl NotInitialized
      else
        (case est of
           EstimateThrows \<Rightarrow> Inr (neutral_result, s)
         | EstimateNull \<Rightarrow> Inr (neutral_result, s)
         | Faces [] \<Rightarrow> Inr (neutral_result, s)
         | Faces (f # _) \<Rightarrow> Inr (analyzeFace s currentTime f)))"


text \<open>
  A concrete face of 468 landmarks with both eyes shut (the lids coincide) and the nose
  tip below the bridge, used to evaluate \<open>analyzeFrame\<close>.
\<close>

definition shut_eyes_landmarks :: "point list" where
  "shut_eyes_landmarks =
     (replicate 468 \<lparr>pt_x = 0, pt_y = 0\<rparr>)
       [1 := \<lparr>pt_x = 1, pt_y = 1\<rparr>,
        133 := \<lparr>pt_x = 1, pt_y = 0\<rparr>,
        362 := \<lparr>pt_x = 2, pt_y = 0\<rparr>,
        263 := \<lparr>pt_x = 3, pt_y = 0\<rparr>]"

definition shut_eyes_face :: face where
  "shut_eyes_face = \<lparr>keypoints = Some shut_eyes_landmarks, scaledMesh = None\<rparr>"

section \<open>Emotion classifier: \<open>lib/analytics/goemotions.ts\<close>\<close>

record Emotion =
  label :: string
  score :: real

datatype classify_error = BrowserOnly | LoadFailed | InferenceFailed

text \<open>
  What the classifier depends on outside the module: whether it runs in a browser, whether
  the dynamic import and the \<open>pipeline(...)\<close> construction succeed, and what the model
  answers (or throws) on a text.
\<close>

record model_env =
  hasWindow :: bool
  loadPipeline :: bool
  pipe :: "string \<Rightarrow> classify_error + Emotion list"

text \<open>
  The module variables \<open>_pipePromise\<close> (set or \<open>null\<close>) and \<open>_pipeReady\<close>, with two
  observation fields: how often a pipeline construction was started and the texts the
  model was run on, in order.
\<close>

record emo_state =
  pipePromise :: bool
  pipeReady :: bool
  pipelineLoads :: nat
  pipeCalls :: "string list"

definition emo_loaded :: emo_state where
  "emo_loaded = \<lparr>pipePromise = False, pipeReady = False, pipelineLoads = 0, pipeCalls = []\<rparr>"

text \<open>
  \<open>String.prototype.trim\<close> on a text of code units below 256: it strips TAB, LF, VT, FF,
  CR, SPACE and the no-break space from both ends.
\<close>

definition js_whitespace :: "char \<Rightarrow> bool" where
  "js_whitespace c =
     (c = CHR 0x09 \<or> c = CHR 0x0A \<or> c = CHR 0x0B \<or> c = CHR 0x0C \<or> c = CHR 0x0D
      \<or> c = CHR 0x20 \<or> c = CHR 0xA0)"

definition trim :: "string \<Rightarrow> string" where
  "trim text = rev (dropWhile js_whitespace (rev (dropWhile js_whitespace text)))"

text \<open>
  \<open>initGoEmotions\<close>, run to completion: a cached pipeline is returned as it is; otherwise
  the pipeline is built and warmed up on \<open>'ok'\<close>, and a failure resets the cache and is
  re-thrown.
\<close>

definition initGoEmotions :: "model_env \<Rightarrow> emo_state \<Rightarrow> (classify_error + unit) \<times> emo_state" where
  "initGoEmotions env s =
     (if pipePromise s then (Inr (), s)
      else if \<not> hasWindow env then (Inl BrowserOnly, s)
      else
        (let s1 = s\<lparr>pipelineLoads := pipelineLoads s + 1\<rparr>
         in if \<not> loadPipeline env
            then (Inl LoadFailed, s1\<lparr>pipePromise := False, pipeReady := False\<rparr>)
            else
              (let s2 = s1\<lparr>pipeCalls := pipeCalls s1 @ [''ok'']\<rparr>
               in case pipe env ''ok'' of
                    Inl e \<Rightarrow> (Inl e, s2\<lparr>pipePromise := False, pipeReady := False\<rparr>)
                  | Inr _ \<Rightarrow> (Inr (), s2\<lparr>pipePromise := True, pipeReady := True\<rparr>))))"

text \<open>The second loop's body: push unless \<open>picked.find((p) => p.label === emotion.label)\<close>.\<close>

definition push_if_new :: "Emotion list \<Rightarrow> Emotion \<Rightarrow> Emotion list" where
  "push_if_new picked emotion =
     (if find (\<lambda>p. label p = label emotion) picked = None then picked @ [emotion]
      else picked)"

text \<open>
  The selection of \<open>classifyGoEmotions\<close> on the model's answer \<open>raw\<close>:
  \<open>[...raw].sort((a, b) => b.score - a.score)\<close>, a stable sort by descending score; every
  entry with \<open>score >= threshold\<close>; then the first \<open>min(topK, length)\<close> sorted entries
  whose label is not picked yet.
\<close>

definition by_score :: "Emotion list \<Rightarrow> Emotion list" where
  "by_score raw = sort_key (\<lambda>e. - score e) raw"

definition pick_emotions :: "Emotion list \<Rightarrow> real \<Rightarrow> nat \<Rightarrow> Emotion list" where
  "pick_emotions raw threshold topK =
     (let sorted = by_score raw;
          picked = filter (\<lambda>e. score e \<ge> threshold) sorted
      in foldl push_if_new picked (take (min topK (length sorted)) sorted))"

definition classifyGoEmotions ::
  "model_env \<Rightarrow> emo_state \<Rightarrow> string \<Rightarrow> real \<Rightarrow> nat \<Rightarrow> (classify_error + Emotion list) \<times> emo_state" where
  "classifyGoEmotions env s text threshold topK =
     (if trim text = [] then (Inr [], s)
      else
        (case initGoEmotions env s of
           (Inl e, s1) \<Rightarrow> (Inl e, s1)
         | (Inr _, s1) \<Rightarrow>
             (let s2 = s1\<lparr>pipeCalls := pipeCalls s1 @ [text]\<rparr>
              in case pipe env text of
                   Inl e \<Rightarrow> (Inl e, s2)
                 | Inr raw \<Rightarrow> (Inr (pick_emotions raw threshold topK), s2))))"

text \<open>
  \<open>classifyEmotions(text, threshold = 0.30)\<close> of \<open>analyticsController.ts\<close>; its \<open>catch\<close>
  logs and re-throws, so the outcome is the callee's.
\<close>

definition DEFAULT_EMOTION_THRESHOLD :: real where
  "DEFAULT_EMOTION_THRESHOLD = 0.30"

definition classifyEmotions ::
  "model_env \<Rightarrow> emo_state \<Rightarrow> string \<Rightarrow> real \<Rightarrow> (classify_error + Emotion list) \<times> emo_state" where
  "classifyEmotions env s text threshold =
     (if trim text = [] then (Inr [], s)
      else classifyGoEmotions env s text threshold 3)"

text \<open>
  Concrete models: a browser in which the pipeline loads and the model answers every
  text with the given scores.
\<close>

definition browser_model :: "Emotion list \<Rightarrow> model_env" where
  "browser_model scores = \<lparr>hasWindow = True, loadPipeline = True, pipe = (\<lambda>text. Inr scores)\<rparr>"

definition scores_one_strong :: "Emotion list" where
  "scores_one_strong =
     [\<lparr>label = ''sadness'', score = 0.1\<rparr>, \<lparr>label = ''joy'', score = 0.9\<rparr>,
      \<lparr>label = ''anger'', score = 0.05\<rparr>, \<lparr>label = ''fear'', score = 0.2\<rparr>]"

definition scores_at_threshold :: "Emotion list" where
  "scores_at_threshold =
     [\<lparr>label = ''neutral'', score = 0.3\<rparr>, \<lparr>label = ''joy'', score = 0.9\<rparr>,
      \<lparr>label = ''love'', score = 0.7\<rparr>, \<lparr>label = ''admiration'', score = 0.8\<rparr>]"

section \<open>Controller: \<open>lib/analytics/analyticsController.ts\<close> and \<open>config.ts\<close>\<close>

definition RMS_NOISE_FLOOR :: real where
  "RMS_NOISE_FLOOR = 0.03"

definition WPM_WINDOW_SEC :: int where
  "WPM_WINDOW_SEC = 30"

definition PAUSE_WINDOW_SEC :: int where
  "PAUSE_WINDOW_SEC = 10"

definition METRICS_HZ :: int where
  "METRICS_HZ = 10"

definition MAX_METRICS_BUFFER :: nat where
  "MAX_METRICS_BUFFER = 18000"

definition TONE_HISTORY_SIZE :: nat where
  "TONE_HISTORY_SIZE = 30"

text \<open>\<open>Partial<AudioAnalysisMessage>\<close> and \<open>Partial<FaceAnalysisMessage>\<close>: the two caches.\<close>

record AudioData =
  ad_rms :: "real option"
  ad_pitch :: "real option"

record FaceData =
  fd_yaw :: "real option"
  fd_pitch :: "real option"
  fd_blinkPerMin :: "real option"
  fd_smile :: "real option"
  fd_gazeJitter :: "real option"

text \<open>An entry of \<open>wordTimestamps\<close>: \<open>{ word, t }\<close>.\<close>

record word_stamp =
  ws_word :: string
  ws_t :: int

record MetricsEvent =
  ev_t :: int
  wpm :: "real option"
  pitch_hz :: "real option"
  rms :: "real option"
  pause_ratio :: "real option"
  fillers_per_min :: "real option"
  head :: "(real \<times> real) option"
  gaze_jitter :: "real option"
  smile :: "real option"
  blink_per_min :: "real option"
  transcript_partial :: string
  transcript_final :: string
  emotions :: "Emotion list option"

datatype recorder_state = Inactive | Recording | Paused

text \<open>
  The closure variables of \<open>createAnalyticsController\<close>. A device handle is present or
  \<open>null\<close>; the stream is the list of its tracks; the video element, when there is one,
  says whether a stream is attached to it.
\<close>

record controller =
  isRunning :: bool
  startTime :: int
  endTime :: int
  stream :: "nat list option"
  mediaRecorder :: "recorder_state option"
  audioContext :: bool
  audioWorkletNode :: bool
  latestAudioData :: AudioData
  faceWorker :: bool
  faceLoopId :: "nat option"
  latestFaceData :: FaceData
  transcriptFinal :: string
  transcriptInterim :: string
  wordTimestamps :: "word_stamp list"
  fillerCount :: nat
  pitchHistory :: "real list"
  rmsHistory :: "real list"
  wpmHistory :: "real list"
  lastEmotions :: "Emotion list"
  allMetrics :: "MetricsEvent list"
  metricsIntervalId :: "nat option"
  videoElement :: "bool option"

text \<open>\<open>Math.round\<close>: to the nearest integer, a half upwards.\<close>

definition js_round :: "real \<Rightarrow> real" where
  "js_round v = of_int \<lfloor>v + 1 / 2\<rfloor>"

text \<open>\<open>v || 0\<close> on an optional number.\<close>

definition or_zero :: "real option \<Rightarrow> real" where
  "or_zero v = (case v of None \<Rightarrow> 0 | Some r \<Rightarrow> r)"

text \<open>
  \<open>calculateWPM\<close> at time \<open>now = Date.now()\<close>: it drops the words older than the window
  from \<open>wordTimestamps\<close> and scales what is left to a minute.
\<close>

definition calculateWPM :: "controller \<Rightarrow> int \<Rightarrow> real \<times> controller" where
  "calculateWPM s now =
     (let windowMs = WPM_WINDOW_SEC * 1000;
          cutoff = now - windowMs;
          s' = s\<lparr>wordTimestamps := filter (\<lambda>w. ws_t w \<ge> cutoff) (wordTimestamps s)\<rparr>
      in if length (wordTimestamps s') = 0 then (0, s')
         else (js_round (real (length (wordTimestamps s')) / of_int WPM_WINDOW_SEC * 60), s'))"

definition calculatePauseRatio :: "real list \<Rightarrow> real" where
  "calculatePauseRatio history =
     (if length history = 0 then 0
      else
        (let threshold = RMS_NOISE_FLOOR * 2;
             pauses = length (filter (\<lambda>r. r < threshold) history)
         in real pauses / real (length history)))"

definition calculateFillersPerMin :: "controller \<Rightarrow> int \<Rightarrow> real" where
  "calculateFillersPerMin s now =
     (let elapsedMin = of_int (now - startTime s) / 60000
      in if elapsedMin = 0 then 0 else real (fillerCount s) / elapsedMin)"

text \<open>\<open>if (history.length > TONE_HISTORY_SIZE) history.shift()\<close>, after the push.\<close>

definition trim_history :: "real list \<Rightarrow> real list" where
  "trim_history history = (if length history > TONE_HISTORY_SIZE then tl history else history)"

text \<open>\<open>if (allMetrics.length > CONFIG.MAX_METRICS_BUFFER) allMetrics.shift()\<close>, after the push.\<close>

definition trim_buffer :: "MetricsEvent list \<Rightarrow> MetricsEvent list" where
  "trim_buffer buffer = (if length buffer > MAX_METRICS_BUFFER then tl buffer else buffer)"

text \<open>
  \<open>publishMetrics\<close>, one tick of the aggregator at time \<open>now\<close>; \<open>asrAvailable\<close> is
  \<open>asrService.available\<close>. The result is the event handed to \<open>metricsBus.publish\<close>
  and the closure state after the tick.
\<close>

definition publishMetrics :: "controller \<Rightarrow> int \<Rightarrow> bool \<Rightarrow> MetricsEvent \<times> controller" where
  "publishMetrics s now asrAvailable =
     (let t = now - startTime s;
          w = (if asrAvailable then calculateWPM s now else (0, s));
          currentWpm = fst w;
          s1 = snd w;
          currentPitch = or_zero (ad_pitch (latestAudioData s1));
          currentRms = or_zero (ad_rms (latestAudioData s1));
          s2 = s1\<lparr>pitchHistory := trim_history (pitchHistory s1 @ [currentPitch]),
                  rmsHistory := trim_history (rmsHistory s1 @ [currentRms]),
                  wpmHistory := trim_history (wpmHistory s1 @ [currentWpm])\<rparr>;
          event =
            \<lparr>ev_t = t,
             wpm = (if asrAvailable then Some currentWpm else None),
             pitch_hz =
               (case ad_pitch (latestAudioData s2) of
                  None \<Rightarrow> None
                | Some p \<Rightarrow> if p \<noteq> 0 \<and> p > 0 then Some p else None),
             rms = ad_rms (latestAudioData s2),
             pause_ratio =
               (if length (rmsHistory s2) > 0 then Some (calculatePauseRatio (rmsHistory s2))
                else None),
             fillers_per_min = Some (calculateFillersPerMin s2 now),
             head =
               (case fd_yaw (latestFaceData s2) of
                  None \<Rightarrow> None
                | Some y \<Rightarrow> Some (y, or_zero (fd_pitch (latestFaceData s2)))),
             gaze_jitter = fd_gazeJitter (latestFaceData s2),
             smile = fd_smile (latestFaceData s2),
             blink_per_min = fd_blinkPerMin (latestFaceData s2),
             transcript_partial = transcriptInterim s2,
             transcript_final = transcriptFinal s2,
             emotions = (if length (lastEmotions s2) > 0 then Some (lastEmotions s2) else None)\<rparr>;
          s3 = s2\<lparr>allMetrics := trim_buffer (allMetrics s2 @ [event])\<rparr>
      in (event, s3))"

subsection \<open>Teardown: \<open>stop()\<close> and \<open>asrService.stop()\<close>\<close>

text \<open>
  The calls \<open>stop()\<close> makes on the platform, each of which may throw:
  \<open>clearInterval\<close>, \<open>recognition.stop()\<close> (inside the ASR wrapper),
  \<open>cancelAnimationFrame\<close>, \<open>faceWorker.terminate()\<close>, \<open>audioWorkletNode.disconnect()\<close>,
  \<open>audioContext.close()\<close>, \<open>mediaRecorder.stop()\<close>, \<open>track.stop()\<close> for a track, the
  assignment \<open>videoElement.srcObject = null\<close>, and the dispatch of \<open>creao:stopped\<close>.
\<close>

datatype teardown_call =
  ClearInterval | RecognitionStop | CancelAnimationFrame | WorkerTerminate | NodeDisconnect
  | ContextClose | RecorderStop | TrackStop nat | ClearSrcObject | DispatchStopped

text \<open>The ASR singleton (\<open>asrServiceInstance\<close>, its \<open>recognition\<close> and \<open>isRunning\<close>).\<close>

record asr_service =
  asr_instance :: bool
  asr_recognition :: bool
  asr_isRunning :: bool

text \<open>
  The state of a run of \<open>stop()\<close>: the closure variables, the ASR singleton, the call that
  threw out of \<open>stop()\<close> if one did, the calls completed so far and the console lines.
\<close>

record stop_run =
  ctl :: controller
  asr :: asr_service
  raised :: "teardown_call option"
  calls :: "teardown_call list"
  console :: "string list"

text \<open>
  A statement \<open>call(); variable = value\<close> of \<open>stop()\<close>: skipped once an exception is on its
  way out; when the call throws, the exception leaves \<open>stop()\<close> and the assignment is
  not reached.
\<close>

definition call ::
  "(teardown_call \<Rightarrow> bool) \<Rightarrow> teardown_call \<Rightarrow> (controller \<Rightarrow> controller) \<Rightarrow> stop_run \<Rightarrow> stop_run" where
  "call throws c assign r =
     (if raised r \<noteq> None then r
      else if throws c then r\<lparr>raised := Some c\<rparr>
      else r\<lparr>ctl := assign (ctl r), calls := calls r @ [c]\<rparr>)"

text \<open>
  \<open>asrService.stop()\<close>: the wrapper's own \<open>try { recognition.stop() } catch (e)
  { console.warn('ASR stop error:', e) }\<close>.
\<close>

definition asrService_stop :: "(teardown_call \<Rightarrow> bool) \<Rightarrow> stop_run \<Rightarrow> stop_run" where
  "asrService_stop throws r =
     (if raised r \<noteq> None then r
      else if asr_instance (asr r) \<and> asr_recognition (asr r) \<and> asr_isRunning (asr r)
      then
        (let r1 = r\<lparr>asr := (asr r)\<lparr>asr_isRunning := False\<rparr>\<rparr>
         in if throws RecognitionStop then r1\<lparr>console := console r1 @ [''ASR stop error'']\<rparr>
            else r1\<lparr>calls := calls r1 @ [RecognitionStop]\<rparr>)
      else r)"

text \<open>\<open>stream.getTracks().forEach((track) => track.stop()); stream = null\<close>.\<close>

definition stop_tracks :: "(teardown_call \<Rightarrow> bool) \<Rightarrow> nat list \<Rightarrow> stop_run \<Rightarrow> stop_run" where
  "stop_tracks throws tracks r =
     (let r1 = foldl (\<lambda>q track. call throws (TrackStop track) (\<lambda>c. c) q) r tracks
      in if raised r1 \<noteq> None then r1 else r1\<lparr>ctl := (ctl r1)\<lparr>stream := None\<rparr>\<rparr>)"

text \<open>The statements of \<open>stop()\<close> after its guard, one definition per block, in order.\<close>

definition stop_timer :: "(teardown_call \<Rightarrow> bool) \<Rightarrow> stop_run \<Rightarrow> stop_run" where
  "stop_timer throws r =
     (if metricsIntervalId (ctl r) \<noteq> None
      then call throws ClearInterval (\<lambda>c. c\<lparr>metricsIntervalId := None\<rparr>) r
      else r)"

definition stop_face_loop :: "(teardown_call \<Rightarrow> bool) \<Rightarrow> stop_run \<Rightarrow> stop_run" where
  "stop_face_loop throws r =
     (if faceLoopId (ctl r) \<noteq> None
      then call throws CancelAnimationFrame (\<lambda>c. c\<lparr>faceLoopId := None\<rparr>) r
      else r)"

definition stop_face_worker :: "(teardown_call \<Rightarrow> bool) \<Rightarrow> stop_run \<Rightarrow> stop_run" where
  "stop_face_worker throws r =
     (if faceWorker (ctl r)
      then call throws WorkerTerminate (\<lambda>c. c\<lparr>faceWorker := False\<rparr>) r
      else r)"

definition stop_audio_node :: "(teardown_call \<Rightarrow> bool) \<Rightarrow> stop_run \<Rightarrow> stop_run" where
  "stop_audio_node throws r =
     (if audioWorkletNode (ctl r)
      then call throws NodeDisconnect (\<lambda>c. c\<lparr>audioWorkletNode := False\<rparr>) r
      else r)"

definition stop_audio_context :: "(teardown_call \<Rightarrow> bool) \<Rightarrow> stop_run \<Rightarrow> stop_run" where
  "stop_audio_context throws r =
     (if audioContext (ctl r)
      then call throws ContextClose (\<lambda>c. c\<lparr>audioContext := False\<rparr>) r
      else r)"

text \<open>\<open>if (mediaRecorder && mediaRecorder.state !== 'inactive') mediaRecorder.stop()\<close>.\<close>

definition stop_recorder :: "(teardown_call \<Rightarrow> bool) \<Rightarrow> stop_run \<Rightarrow> stop_run" where
  "stop_recorder throws r =
     (case mediaRecorder (ctl r) of
        None \<Rightarrow> r
      | Some st \<Rightarrow>
          if st \<noteq> Inactive
          then call throws RecorderStop (\<lambda>c. c\<lparr>mediaRecorder := Some Inactive\<rparr>) r
          else r)"

definition stop_stream :: "(teardown_call \<Rightarrow> bool) \<Rightarrow> stop_run \<Rightarrow> stop_run" where
  "stop_stream throws r =
     (case stream (ctl r) of
        None \<Rightarrow> r
      | Some tracks \<Rightarrow> stop_tracks throws tracks r)"

definition clear_video :: "(teardown_call \<Rightarrow> bool) \<Rightarrow> stop_run \<Rightarrow> stop_run" where
  "clear_video throws r =
     (case videoElement (ctl r) of
        None \<Rightarrow> r
      | Some _ \<Rightarrow> call throws ClearSrcObject (\<lambda>c. c\<lparr>videoElement := Some False\<rparr>) r)"

definition dispatch_stopped :: "(teardown_call \<Rightarrow> bool) \<Rightarrow> stop_run \<Rightarrow> stop_run" where
  "dispatch_stopped throws r = call throws DispatchStopped (\<lambda>c. c) r"

text \<open>\<open>console.log('Analytics controller stopped')\<close>, the last statement.\<close>

definition log_stopped :: "stop_run \<Rightarrow> stop_run" where
  "log_stopped r =
     (if raised r \<noteq> None then r
      else r\<lparr>console := console r @ [''Analytics controller stopped'']\<rparr>)"

text \<open>
  \<open>stop()\<close> at time \<open>now\<close>, in the browser (\<open>window\<close> is defined), where \<open>throws\<close> says
  which platform calls throw. There is no \<open>try\<close> in its body: the only handler on the way
  is the one inside \<open>asrService.stop()\<close>.
\<close>

definition stop :: "(teardown_call \<Rightarrow> bool) \<Rightarrow> int \<Rightarrow> controller \<Rightarrow> asr_service \<Rightarrow> stop_run" where
  "stop throws now s a =
     (if \<not> isRunning s \<and> stream s = None
      then \<lparr>ctl = s, asr = a, raised = None, calls = [], console = []\<rparr>
      else
        (let r0 = \<lparr>ctl = s\<lparr>isRunning := False, endTime := now\<rparr>, asr = a, raised = None,
                   calls = [], console = []\<rparr>;
             r1 = stop_timer throws r0;
             r2 = asrService_stop throws r1;
             r3 = stop_face_loop throws r2;
             r4 = stop_face_worker throws r3;
             r5 = stop_audio_node throws r4;
             r6 = stop_audio_context throws r5;
             r7 = stop_recorder throws r6;
             r8 = stop_stream throws r7;
             r9 = clear_video throws r8;
             r10 = dispatch_stopped throws r9
         in log_stopped r10))"

text \<open>Every handle that \<open>stop()\<close> is to release has been released.\<close>

definition released :: "controller \<Rightarrow> bool" where
  "released c =
     (\<not> isRunning c \<and> metricsIntervalId c = None \<and> faceLoopId c = None \<and> \<not> faceWorker c
      \<and> \<not> audioWorkletNode c \<and> \<not> audioContext c \<and> stream c = None
      \<and> (mediaRecorder c = None \<or> mediaRecorder c = Some Inactive)
      \<and> (videoElement c = None \<or> videoElement c = Some False))"

subsection \<open>Concrete inputs\<close>

text \<open>The closure variables as \<open>createAnalyticsController\<close> initialises them.\<close>

definition controller_created :: controller where
  "controller_created =
     \<lparr>isRunning = False, startTime = 0, endTime = 0, stream = None, mediaRecorder = None,
      audioContext = False, audioWorkletNode = False,
      latestAudioData = \<lparr>ad_rms = None, ad_pitch = None\<rparr>,
      faceWorker = False, faceLoopId = None,
      latestFaceData = \<lparr>fd_yaw = None, fd_pitch = None, fd_blinkPerMin = None,
                        fd_smile = None, fd_gazeJitter = None\<rparr>,
      transcriptFinal = [], transcriptInterim = [], wordTimestamps = [], fillerCount = 0,
      pitchHistory = [], rmsHistory = [], wpmHistory = [], lastEmotions = [],
      allMetrics = [], metricsIntervalId = None, videoElement = None\<rparr>"

text \<open>
  After a successful \<open>start()\<close> at time 0 with a video element: an audio and a video
  track, both pipelines, the recorder and the timer running.
\<close>

definition controller_running :: controller where
  "controller_running =
     controller_created
       \<lparr>isRunning := True, stream := Some [0, 1], mediaRecorder := Some Recording,
        audioContext := True, audioWorkletNode := True, faceWorker := True,
        faceLoopId := Some 1, metricsIntervalId := Some 1, videoElement := Some True\<rparr>"

definition asr_running :: asr_service where
  "asr_running = \<lparr>asr_instance = True, asr_recognition = True, asr_isRunning = True\<rparr>"

text \<open>
  A run of the aggregator: before each tick at time \<open>now\<close> the worklet's latest message
  has overwritten the audio cache.
\<close>

fun audio_ticks :: "controller \<Rightarrow> bool \<Rightarrow> (int \<times> AudioData) list \<Rightarrow> MetricsEvent list \<times> controller" where
  "audio_ticks s asrAvailable [] = ([], s)"
| "audio_ticks s asrAvailable ((now, msg) # rest) =
     (let r = publishMetrics (s\<lparr>latestAudioData := msg\<rparr>) now asrAvailable;
          more = audio_ticks (snd r) asrAvailable rest
      in (fst r # fst more, snd more))"

text \<open>The worker after the frame \<open>shut_eyes_face\<close> at time 1000: one blink on record.\<close>

definition worker_after_blink :: worker_state where
  "worker_after_blink =
     worker_ready
       \<lparr>blinkTimestamps := [1000],
        gazePositions := [\<lparr>gz_x = 1, gz_y = 0, gz_t = 1000\<rparr>],
        lastEyeAspectRatio := 0, blinkCount := 1\<rparr>"

text \<open>A run of no-face cycles at the given times; each leaves the state it returns.\<close>

fun no_face_cycles :: "worker_state \<Rightarrow> int list \<Rightarrow> worker_state" where
  "no_face_cycles s [] = s"
| "no_face_cycles s (t # ts) =
     (case analyzeFrame s t (Faces []) of
        Inl _ \<Rightarrow> s
      | Inr r \<Rightarrow> no_face_cycles (snd r) ts)"

text \<open>An event with nothing but its time, and a session whose history is full.\<close>

definition blank_event :: "int \<Rightarrow> MetricsEvent" where
  "blank_event t =
     \<lparr>ev_t = t, wpm = None, pitch_hz = None, rms = None, pause_ratio = None,
      fillers_per_min = None, head = None, gaze_jitter = None, smile = None,
      blink_per_min = None, transcript_partial = [], transcript_final = [], emotions = None\<rparr>"

definition controller_at_cap :: controller where
  "controller_at_cap =
     controller_running\<lparr>allMetrics := blank_event 0 # replicate 17999 (blank_event 100)\<rparr>"

definition controller_three_words :: controller where
  "controller_three_words =
     controller_running
       \<lparr>wordTimestamps :=
          [\<lparr>ws_word = ''hello'', ws_t = 0\<rparr>, \<lparr>ws_word = ''brave'', ws_t = 20000\<rparr>,
           \<lparr>ws_word = ''world'', ws_t = 40000\<rparr>]\<rparr>"

text \<open>
  One silent worklet frame before the tick at 100 ms, then thirty loud ones before the
  ticks at 200 ms, ..., 3100 ms: a 10 Hz session of 3.1 s.
\<close>

definition silence_then_speech :: "(int \<times> AudioData) list" where
  "silence_then_speech =
     (100, \<lparr>ad_rms = Some 0, ad_pitch = Some 0\<rparr>)
     # map (\<lambda>k. (100 * int k, \<lparr>ad_rms = Some 0.5, ad_pitch = Some 0\<rparr>)) [2 ..< 32]"

text \<open>
  The pause ratio as the specification words it: of the loudness samples \<open>(t, rms)\<close> taken
  within the trailing \<open>PAUSE_WINDOW_SEC\<close> seconds before \<open>now\<close>, the fraction below twice
  the noise floor.
\<close>

definition window_pause_ratio :: "(int \<times> real) list \<Rightarrow> int \<Rightarrow> real" where
  "window_pause_ratio samples now =
     (let recent = filter (\<lambda>(t, r). t > now - PAUSE_WINDOW_SEC * 1000) samples;
          pauses = filter (\<lambda>(t, r). r < RMS_NOISE_FLOOR * 2) recent
      in real (length pauses) / real (length recent))"

subsection \<open>Predicates on runs of \<open>stop()\<close>\<close>

text \<open>What can be on its way out of a run: only a call that throws, never the ASR one.\<close>

definition escaped_ok :: "(teardown_call \<Rightarrow> bool) \<Rightarrow> stop_run \<Rightarrow> bool" where
  "escaped_ok throws r =
     (case raised r of None \<Rightarrow> True | Some c \<Rightarrow> throws c \<and> c \<noteq> RecognitionStop)"

text \<open>
  A step that completes: nothing escapes, the console and the ASR singleton are as
  before, and the closure variables are changed by \<open>g\<close>.
\<close>

definition completes :: "stop_run \<Rightarrow> stop_run \<Rightarrow> (controller \<Rightarrow> controller) \<Rightarrow> bool" where
  "completes r r' g =
     (raised r' = None \<and> console r' = console r \<and> asr r' = asr r \<and> ctl r' = g (ctl r))"

text \<open>No platform call throws, except perhaps the recogniser's \<open>stop()\<close>.\<close>

definition quiet :: "(teardown_call \<Rightarrow> bool) \<Rightarrow> bool" where
  "quiet throws = (\<forall>c. c \<noteq> RecognitionStop \<longrightarrow> \<not> throws c)"

text \<open>The guard of \<open>ASRService.stop()\<close>, behind the singleton's own.\<close>

definition asr_active :: "asr_service \<Rightarrow> bool" where
  "asr_active a = (asr_instance a \<and> asr_recognition a \<and> asr_isRunning a)"

text \<open>
  The platform calls that \<open>stop()\<close> has ahead of it on a session, in the order of its
  statements, each under the guard the statement has: nothing when \<open>stop()\<close> returns at
  once, and the dispatch of \<open>creao:stopped\<close> last.
\<close>

definition teardown_plan :: "controller \<Rightarrow> asr_service \<Rightarrow> teardown_call list" where
  "teardown_plan s a =
     (if \<not> isRunning s \<and> stream s = None then []
      else
        (if metricsIntervalId s \<noteq> None then [ClearInterval] else [])
        @ (if asr_active a then [RecognitionStop] else [])
        @ (if faceLoopId s \<noteq> None then [CancelAnimationFrame] else [])
        @ (if faceWorker s then [WorkerTerminate] else [])
        @ (if audioWorkletNode s then [NodeDisconnect] else [])
        @ (if audioContext s then [ContextClose] else [])
        @ (case mediaRecorder s of
             None \<Rightarrow> []
           | Some st \<Rightarrow> if st \<noteq> Inactive then [RecorderStop] else [])
        @ (case stream s of None \<Rightarrow> [] | Some tracks \<Rightarrow> map TrackStop tracks)
        @ (case videoElement s of None \<Rightarrow> [] | Some v \<Rightarrow> [ClearSrcObject])
        @ [DispatchStopped])"

text \<open>
  A run has got through the calls \<open>cs\<close> of the plan: what is on its way out is the first
  call of \<open>cs\<close>, other than the recogniser's, that throws; the completed calls are those
  before it, less the recogniser's when it threw and was caught.
\<close>

definition follows :: "(teardown_call \<Rightarrow> bool) \<Rightarrow> teardown_call list \<Rightarrow> stop_run \<Rightarrow> bool" where
  "follows throws cs r =
     (raised r = find (\<lambda>c. c \<noteq> RecognitionStop \<and> throws c) cs
      \<and> calls r =
          filter (\<lambda>c. \<not> throws c) (takeWhile (\<lambda>c. c = RecognitionStop \<or> \<not> throws c) cs))"

section \<open>Properties of the audio worklet\<close>

lemma energy_of_silence: "energy_of (replicate n 0) = 0"
proof -
  have "foldl (\<lambda>acc v. acc + v * v) a (replicate n (0::real)) = a" for a
    by (induction n arbitrary: a) simp_all
  then show ?thesis by (simp add: energy_of_def)
qed

lemma foldl_add_zero:
  "(\<And>i. i \<in> set js \<Longrightarrow> f i = (0::real)) \<Longrightarrow> foldl (\<lambda>corr i. corr + f i) a js = a"
  by (induction js arbitrary: a) simp_all

lemma autocorr_silence: "autocorr (replicate n 0) period = 0"
  unfolding autocorr_def
  by (rule foldl_add_zero) simp

lemma pitch_loop_silence:
  "foldl (pitch_step (replicate n 0)) (0, 0) periods = (0, 0)"
  by (induction periods) (simp_all add: pitch_step_def autocorr_silence)

text \<open>
  C5. A silent frame (every sample zero, any positive length \<open>n\<close>) has loudness 0 and
  pitch 0, the "no clear pitch" value, at every sample rate.
\<close>

theorem silent_frame_rms_pitch_zero:
  "0 < n \<Longrightarrow>
     computeRMS (replicate n 0) = Some 0 \<and> computePitch (replicate n 0) sampleRate = 0"
  by (simp add: computeRMS_def computePitch_def energy_of_silence pitch_loop_silence)

theorem silent_frame_rms_pitch_zero_witness:
  "(0::nat) < 2400 \<and> computeRMS (replicate 2400 0) = Some 0
     \<and> computePitch (replicate 2400 0) 48000 = 0"
  using silent_frame_rms_pitch_zero [of 2400 48000] by simp

section \<open>Properties of the face worker\<close>






subsection \<open>The frame \<open>shut_eyes_face\<close>, evaluated\<close>

lemma shut_eyes_length: "length shut_eyes_landmarks = 468"
  by (simp add: shut_eyes_landmarks_def)

lemma shut_eyes_left:
  "pick_points shut_eyes_landmarks LEFT_EYE_INDICES =
     [\<lparr>pt_x = 0, pt_y = 0\<rparr>, \<lparr>pt_x = 0, pt_y = 0\<rparr>, \<lparr>pt_x = 0, pt_y = 0\<rparr>,
      \<lparr>pt_x = 1, pt_y = 0\<rparr>, \<lparr>pt_x = 0, pt_y = 0\<rparr>, \<lparr>pt_x = 0, pt_y = 0\<rparr>]"
  by (simp add: pick_points_def List.map_filter_def LEFT_EYE_INDICES_def landmark_at_def
      shut_eyes_length) (simp add: shut_eyes_landmarks_def)

lemma shut_eyes_right:
  "pick_points shut_eyes_landmarks RIGHT_EYE_INDICES =
     [\<lparr>pt_x = 2, pt_y = 0\<rparr>, \<lparr>pt_x = 0, pt_y = 0\<rparr>, \<lparr>pt_x = 0, pt_y = 0\<rparr>,
      \<lparr>pt_x = 3, pt_y = 0\<rparr>, \<lparr>pt_x = 0, pt_y = 0\<rparr>, \<lparr>pt_x = 0, pt_y = 0\<rparr>]"
  by (simp add: pick_points_def List.map_filter_def RIGHT_EYE_INDICES_def landmark_at_def
      shut_eyes_length) (simp add: shut_eyes_landmarks_def)

lemma shut_eyes_mouth:
  "pick_points shut_eyes_landmarks MOUTH_INDICES =
     [\<lparr>pt_x = 0, pt_y = 0\<rparr>, \<lparr>pt_x = 0, pt_y = 0\<rparr>, \<lparr>pt_x = 0, pt_y = 0\<rparr>,
      \<lparr>pt_x = 0, pt_y = 0\<rparr>]"
  by (simp add: pick_points_def List.map_filter_def MOUTH_INDICES_def landmark_at_def
      shut_eyes_length) (simp add: shut_eyes_landmarks_def)

lemma shut_eyes_ear:
  "calculateEAR (pick_points shut_eyes_landmarks LEFT_EYE_INDICES) = 0"
  "calculateEAR (pick_points shut_eyes_landmarks RIGHT_EYE_INDICES) = 0"
  by (simp_all add: shut_eyes_left shut_eyes_right calculateEAR_def distance_def)

lemma shut_eyes_mar: "calculateMAR (pick_points shut_eyes_landmarks MOUTH_INDICES) = 0"
  by (simp add: shut_eyes_mouth calculateMAR_def)

lemma shut_eyes_at:
  "landmark_at shut_eyes_landmarks NOSE_TIP = Some \<lparr>pt_x = 1, pt_y = 1\<rparr>"
  "landmark_at shut_eyes_landmarks NOSE_BRIDGE = Some \<lparr>pt_x = 0, pt_y = 0\<rparr>"
  "landmark_at shut_eyes_landmarks (LEFT_EYE_INDICES ! 0) = Some \<lparr>pt_x = 0, pt_y = 0\<rparr>"
  "landmark_at shut_eyes_landmarks (RIGHT_EYE_INDICES ! 0) = Some \<lparr>pt_x = 2, pt_y = 0\<rparr>"
  by (simp_all add: landmark_at_def shut_eyes_length NOSE_TIP_def NOSE_BRIDGE_def
      LEFT_EYE_INDICES_def RIGHT_EYE_INDICES_def)
    (simp_all add: shut_eyes_landmarks_def)

lemma shut_eyes_pose: "calculateHeadPose shut_eyes_landmarks = (0, 30)"
  by (simp add: calculateHeadPose_def shut_eyes_length shut_eyes_at)

lemma shut_eyes_blink:
  "updateBlinkRate worker_ready 0 1000 =
     (1, worker_ready\<lparr>blinkCount := 1, blinkTimestamps := [1000], lastEyeAspectRatio := 0\<rparr>)"
  by (simp add: updateBlinkRate_def worker_ready_def worker_loaded_def BLINK_THRESHOLD_def
      BLINK_WINDOW_MS_def)

lemma shut_eyes_gaze:
  "gazePositions s = [] \<Longrightarrow>
     calculateGazeJitter s shut_eyes_landmarks 1000 =
       (0, s\<lparr>gazePositions := [\<lparr>gz_x = 1, gz_y = 0, gz_t = 1000\<rparr>]\<rparr>)"
  by (simp add: calculateGazeJitter_def shut_eyes_length shut_eyes_at GAZE_WINDOW_MS_def)

lemma shut_eyes_frame:
  "analyzeFace worker_ready 1000 shut_eyes_face =
     (\<lparr>fm_yaw = 0, fm_pitch = 30, fm_blinkPerMin = 1, fm_smile = 0, fm_gazeJitter = 0\<rparr>,
      worker_after_blink)"
  by (simp add: analyzeFace_def shut_eyes_face_def landmarks_of_def shut_eyes_pose
      shut_eyes_ear shut_eyes_mar shut_eyes_blink worker_after_blink_def)
    (simp add: worker_ready_def worker_loaded_def shut_eyes_gaze Let_def)

subsection \<open>Cycles without a face\<close>

lemma no_face_cycle:
  "isInitialized s \<and> faceMesh s \<Longrightarrow>
     analyzeFrame s t (Faces []) = Inr (neutral_result, s)
     \<and> analyzeFrame s t EstimateNull = Inr (neutral_result, s)"
  by (simp add: analyzeFrame_def)

lemma no_face_cycles_same: "isInitialized s \<and> faceMesh s \<Longrightarrow> no_face_cycles s ts = s"
  by (induction ts) (simp_all add: no_face_cycle)

text \<open>
  C2, as the code has it. On an initialised worker a cycle in which the detector finds no
  face (an empty array, or no array) answers with yaw, pitch, smile and gaze jitter at 0
  and with blinks-per-minute at 0 as well, whatever the value reported before; the
  worker's state, and with it the blink count and the blink timestamps, is the same
  after the cycle, and so after any number of such cycles.
\<close>

theorem no_face_reports_zeros_keeps_state:
  "isInitialized s \<and> faceMesh s \<Longrightarrow>
     analyzeFrame s t (Faces []) =
       Inr (\<lparr>fm_yaw = 0, fm_pitch = 0, fm_blinkPerMin = 0, fm_smile = 0, fm_gazeJitter = 0\<rparr>, s)
     \<and> analyzeFrame s t EstimateNull =
       Inr (\<lparr>fm_yaw = 0, fm_pitch = 0, fm_blinkPerMin = 0, fm_smile = 0, fm_gazeJitter = 0\<rparr>, s)
     \<and> no_face_cycles s ts = s"
  by (simp add: no_face_cycle no_face_cycles_same neutral_result_def)

theorem no_face_reports_zeros_keeps_state_witness:
  "isInitialized worker_after_blink \<and> faceMesh worker_after_blink
   \<and> analyzeFrame worker_after_blink 1100 (Faces []) =
       Inr (\<lparr>fm_yaw = 0, fm_pitch = 0, fm_blinkPerMin = 0, fm_smile = 0, fm_gazeJitter = 0\<rparr>,
            worker_after_blink)
   \<and> blinkCount (no_face_cycles worker_after_blink [1100, 1200, 1300]) = 1"
proof -
  have ready: "isInitialized worker_after_blink \<and> faceMesh worker_after_blink"
    by (simp add: worker_after_blink_def worker_ready_def worker_loaded_def)
  have "blinkCount worker_after_blink = 1"
    by (simp add: worker_after_blink_def)
  with ready no_face_reports_zeros_keeps_state [OF ready, of 1100 "[1100, 1200, 1300]"]
  show ?thesis by (simp del: no_face_cycles.simps)
qed

text \<open>
  The claim as stated fails: the frame \<open>shut_eyes_face\<close> at 1000 ms is answered with one
  blink per minute, and the cycle without a face 100 ms later with zero, not with the
  value before.
\<close>

theorem no_face_resets_reported_blink_rate:
  "analyzeFrame worker_ready 1000 (Faces [shut_eyes_face]) =
     Inr (\<lparr>fm_yaw = 0, fm_pitch = 30, fm_blinkPerMin = 1, fm_smile = 0, fm_gazeJitter = 0\<rparr>,
          worker_after_blink)
   \<and> analyzeFrame worker_after_blink 1100 (Faces []) =
     Inr (\<lparr>fm_yaw = 0, fm_pitch = 0, fm_blinkPerMin = 0, fm_smile = 0, fm_gazeJitter = 0\<rparr>,
          worker_after_blink)"
proof -
  have "analyzeFrame worker_ready 1000 (Faces [shut_eyes_face]) =
          Inr (analyzeFace worker_ready 1000 shut_eyes_face)"
    by (simp add: analyzeFrame_def worker_ready_def worker_loaded_def)
  moreover have "isInitialized worker_after_blink \<and> faceMesh worker_after_blink"
    by (simp add: worker_after_blink_def worker_ready_def worker_loaded_def)
  ultimately show ?thesis
    by (simp add: shut_eyes_frame no_face_cycle neutral_result_def)
qed

section \<open>Properties of the emotion classifier\<close>

lemma trim_blank: "\<forall>c\<in>set text. js_whitespace c \<Longrightarrow> trim text = []"
proof -
  assume "\<forall>c\<in>set text. js_whitespace c"
  then have blank: "dropWhile js_whitespace text = []"
    by (simp add: dropWhile_eq_Nil_conv)
  show ?thesis unfolding trim_def blank by simp
qed

lemma trim_letters: "trim ''I am happy'' = ''I am happy''"
  by (simp add: trim_def js_whitespace_def)

text \<open>
  C10. For a text that is empty or made of whitespace only, \<open>classifyEmotions\<close> (and
  \<open>classifyGoEmotions\<close> itself) returns the empty list without an error, and the module
  state is the one before the call: no pipeline construction was started and the model
  was run on nothing.
\<close>

theorem blank_text_returns_empty:
  "\<forall>c\<in>set text. js_whitespace c \<Longrightarrow>
     classifyEmotions env s text threshold = (Inr [], s)
     \<and> classifyGoEmotions env s text threshold topK = (Inr [], s)"
  by (simp add: classifyEmotions_def classifyGoEmotions_def trim_blank)

theorem blank_text_returns_empty_witness:
  "js_whitespace (CHR 0x20) \<and> js_whitespace (CHR 0x09) \<and> js_whitespace (CHR 0x0A)
   \<and> classifyEmotions (browser_model scores_one_strong) emo_loaded
        [CHR 0x20, CHR 0x09, CHR 0x0A] 0.3 = (Inr [], emo_loaded)
   \<and> pipelineLoads (snd (classifyEmotions (browser_model scores_one_strong) emo_loaded
        [CHR 0x20, CHR 0x09, CHR 0x0A] 0.3)) = 0
   \<and> pipeCalls (snd (classifyEmotions (browser_model scores_one_strong) emo_loaded
        [CHR 0x20, CHR 0x09, CHR 0x0A] 0.3)) = []"
proof -
  have blank: "\<forall>c\<in>set [CHR 0x20, CHR 0x09, CHR 0x0A]. js_whitespace c"
    by (simp add: js_whitespace_def)
  from blank_text_returns_empty [OF blank, of "browser_model scores_one_strong" emo_loaded "0.3" 3]
    blank
  show ?thesis by (simp add: emo_loaded_def)
qed

subsection \<open>The selection\<close>

lemma push_if_new_old: "e \<in> set picked \<Longrightarrow> push_if_new picked e = picked"
  by (auto simp: push_if_new_def find_None_iff)

lemma foldl_push_old: "set es \<subseteq> set picked \<Longrightarrow> foldl push_if_new picked es = picked"
  by (induction es) (simp_all add: push_if_new_old)

lemma push_if_new_fresh:
  "label e \<notin> label ` set picked \<Longrightarrow> push_if_new picked e = picked @ [e]"
  by (force simp: push_if_new_def find_None_iff image_iff)

lemma foldl_push_fresh:
  "distinct (map label (picked @ es)) \<Longrightarrow> foldl push_if_new picked es = picked @ es"
proof (induction es arbitrary: picked)
  case Nil
  show ?case by simp
next
  case (Cons e es)
  from Cons.prems have fresh: "label e \<notin> label ` set picked"
    by auto
  from Cons.prems have "distinct (map label ((picked @ [e]) @ es))"
    by simp
  then have "foldl push_if_new (picked @ [e]) es = (picked @ [e]) @ es"
    by (rule Cons.IH)
  then show ?case
    by (simp add: push_if_new_fresh [OF fresh])
qed

lemma descending_filter_split:
  "sorted (map (\<lambda>e. - score e) xs) \<Longrightarrow>
     xs = filter (\<lambda>e. score e \<ge> thr) xs @ filter (\<lambda>e. \<not> score e \<ge> thr) xs"
proof (induction xs)
  case Nil
  show ?case by simp
next
  case (Cons x xs)
  then have IH: "xs = filter (\<lambda>e. score e \<ge> thr) xs @ filter (\<lambda>e. \<not> score e \<ge> thr) xs"
    by simp
  show ?case
  proof (cases "score x \<ge> thr")
    case True
    with IH show ?thesis by simp
  next
    case False
    from Cons.prems have "\<forall>e\<in>set xs. score e \<le> score x"
      by auto
    with False have none: "filter (\<lambda>e. score e \<ge> thr) xs = []"
      by (auto simp: filter_empty_conv)
    then have "filter (\<lambda>e. \<not> score e \<ge> thr) xs = xs"
      using IH by simp
    with False none show ?thesis by simp
  qed
qed

lemma pick_emotions_eq:
  assumes "distinct (map label raw)"
  shows "pick_emotions raw thr K =
     (if K \<le> length (filter (\<lambda>e. score e \<ge> thr) (by_score raw))
      then filter (\<lambda>e. score e \<ge> thr) (by_score raw)
      else take K (by_score raw))"
proof -
  define xs where "xs = by_score raw"
  define P where "P = filter (\<lambda>e. score e \<ge> thr) xs"
  define Q where "Q = filter (\<lambda>e. \<not> score e \<ge> thr) xs"
  have desc: "sorted (map (\<lambda>e. - score e) xs)"
    by (simp add: xs_def by_score_def)
  have split: "xs = P @ Q"
    unfolding P_def Q_def by (rule descending_filter_split [OF desc])
  have "distinct raw \<and> inj_on label (set raw)"
    using assms by (simp add: distinct_map)
  then have dl: "distinct (map label xs)"
    by (simp add: distinct_map xs_def by_score_def)
  have tk: "take (min K (length xs)) xs = take K xs"
    by (simp add: min_def)
  have pick: "pick_emotions raw thr K = foldl push_if_new P (take K xs)"
    by (simp add: pick_emotions_def Let_def xs_def [symmetric] P_def tk)
  show ?thesis
  proof (cases "K \<le> length P")
    case True
    then have "take K xs = take K P"
      using split by simp
    then have "set (take K xs) \<subseteq> set P"
      by (simp add: set_take_subset)
    then have "foldl push_if_new P (take K xs) = P"
      by (rule foldl_push_old)
    with True pick show ?thesis
      by (simp add: P_def xs_def)
  next
    case False
    then have tkx: "take K xs = P @ take (K - length P) Q"
      using split by simp
    have "distinct (map label (take K xs))"
      using dl by (simp add: take_map [symmetric] distinct_take)
    then have "distinct (map label (P @ take (K - length P) Q))"
      by (simp only: tkx)
    then have "foldl push_if_new P (take (K - length P) Q) = P @ take (K - length P) Q"
      by (rule foldl_push_fresh)
    moreover have "foldl push_if_new P P = P"
      by (rule foldl_push_old) simp
    ultimately have "foldl push_if_new P (take K xs) = take K xs"
      by (simp add: tkx)
    with False pick show ?thesis
      by (simp add: P_def xs_def)
  qed
qed


lemma pick_emotions_props:
  fixes raw :: "Emotion list" and thr :: real and K :: nat
  assumes "distinct (map label raw)"
  defines "out \<equiv> pick_emotions raw thr K"
  shows "distinct (map label out)"
    and "set out \<subseteq> set raw"
    and "\<forall>e\<in>set raw. score e \<ge> thr \<longrightarrow> e \<in> set out"
    and "length out = max (length (filter (\<lambda>e. score e \<ge> thr) raw)) (min K (length raw))"
    and "\<forall>e\<in>set out. \<forall>e'\<in>set raw. e' \<notin> set out \<longrightarrow> score e' < thr \<and> score e' \<le> score e"
    and "K \<le> length (filter (\<lambda>e. score e \<ge> thr) raw) \<longrightarrow>
           set out = {e \<in> set raw. score e \<ge> thr}"
proof -
  define xs where "xs = by_score raw"
  define P where "P = filter (\<lambda>e. score e \<ge> thr) xs"
  have desc: "sorted (map (\<lambda>e. - score e) xs)"
    by (simp add: xs_def by_score_def)
  have sx: "set xs = set raw" and lx: "length xs = length raw"
    by (simp_all add: xs_def by_score_def)
  have "distinct raw \<and> inj_on label (set raw)"
    using assms(1) by (simp add: distinct_map)
  then have dl: "distinct (map label xs)"
    by (simp add: distinct_map xs_def by_score_def)
  have lP: "length P = length (filter (\<lambda>e. score e \<ge> thr) raw)"
    by (simp add: P_def xs_def by_score_def filter_sort)
  have split: "xs = P @ filter (\<lambda>e. \<not> score e \<ge> thr) xs"
    unfolding P_def by (rule descending_filter_split [OF desc])
  have out: "out = (if K \<le> length P then P else take K xs)"
    unfolding out_def P_def xs_def by (rule pick_emotions_eq [OF assms(1)])
  have P_sub: "set P \<subseteq> set out"
  proof (cases "K \<le> length P")
    case True
    with out show ?thesis by simp
  next
    case False
    then have "P = take (length P) (take K xs)"
      using split by (metis append_eq_conv_conj nat_le_linear take_take min.absorb1)
    then have "set P \<subseteq> set (take K xs)"
      by (metis set_take_subset)
    with False out show ?thesis by simp
  qed
  show "distinct (map label out)"
    using dl by (simp add: out P_def distinct_map_filter take_map [symmetric] distinct_take)
  show "set out \<subseteq> set raw"
    using sx set_take_subset [of K xs] by (auto simp: out P_def)
  show "\<forall>e\<in>set raw. score e \<ge> thr \<longrightarrow> e \<in> set out"
    using P_sub sx by (auto simp: P_def)
  show "length out = max (length (filter (\<lambda>e. score e \<ge> thr) raw)) (min K (length raw))"
  proof (cases "K \<le> length P")
    case True
    with out lP show ?thesis by simp
  next
    case False
    have "length P \<le> length xs"
      by (simp add: P_def)
    with False out lP lx show ?thesis by simp
  qed
  show "\<forall>e\<in>set out. \<forall>e'\<in>set raw. e' \<notin> set out \<longrightarrow> score e' < thr \<and> score e' \<le> score e"
  proof (intro ballI impI)
    fix e e'
    assume e: "e \<in> set out" and e': "e' \<in> set raw" and notin: "e' \<notin> set out"
    from notin P_sub have "e' \<notin> set P" by auto
    with e' sx have low: "score e' < thr"
      by (auto simp: P_def)
    have "score e' \<le> score e"
    proof (cases "K \<le> length P")
      case True
      with out e have "score e \<ge> thr" by (simp add: P_def)
      with low show ?thesis by simp
    next
      case False
      with out e notin have ein: "e \<in> set (take K xs)" and "e' \<notin> set (take K xs)"
        by simp_all
      with e' sx have "e' \<in> set (drop K xs)"
        by (metis Un_iff append_take_drop_id set_append)
      moreover have "sorted (map (\<lambda>e. - score e) (take K xs) @ map (\<lambda>e. - score e) (drop K xs))"
        using desc by (simp add: map_append [symmetric] del: map_append)
      ultimately show ?thesis
        using ein by (auto simp: sorted_append)
    qed
    with low show "score e' < thr \<and> score e' \<le> score e" by simp
  qed
  show "K \<le> length (filter (\<lambda>e. score e \<ge> thr) raw) \<longrightarrow>
           set out = {e \<in> set raw. score e \<ge> thr}"
    using sx by (auto simp: out lP [symmetric] P_def)
qed



text \<open>
  C6, as the code has it. When the text is not blank, the pipeline is available, and the
  model answers with one score per label, the classification succeeds and its output
  \<^item> has no label twice and holds only entries of the model's answer;
  \<^item> holds every entry whose score is at least the threshold (\<open>score >= threshold\<close>: a
    score equal to the threshold is selected), and exactly those entries when three or
    more reach it;
  \<^item> has as many entries as reach the threshold, or \<open>min 3 (length raw)\<close> when fewer than
    that reach it;
  \<^item> and every entry left out is below the threshold and scores no higher than any entry
    of the output: the padding takes the highest-scoring remaining labels.
\<close>

theorem classification_threshold_then_top3:
  assumes "trim text \<noteq> []"
    and "fst (initGoEmotions env s) = Inr ()"
    and "pipe env text = Inr raw"
    and "distinct (map label raw)"
  shows "\<exists>out. fst (classifyEmotions env s text threshold) = Inr out
     \<and> distinct (map label out)
     \<and> set out \<subseteq> set raw
     \<and> (\<forall>e\<in>set raw. score e \<ge> threshold \<longrightarrow> e \<in> set out)
     \<and> length out = max (length (filter (\<lambda>e. score e \<ge> threshold) raw)) (min 3 (length raw))
     \<and> (\<forall>e\<in>set out. \<forall>e'\<in>set raw. e' \<notin> set out \<longrightarrow>
           score e' < threshold \<and> score e' \<le> score e)
     \<and> (3 \<le> length (filter (\<lambda>e. score e \<ge> threshold) raw) \<longrightarrow>
           set out = {e \<in> set raw. score e \<ge> threshold})"
proof -
  obtain s1 where init: "initGoEmotions env s = (Inr (), s1)"
    using assms(2) by (cases "initGoEmotions env s") auto
  have "fst (classifyEmotions env s text threshold) = Inr (pick_emotions raw threshold 3)"
    using assms(1,3) by (simp add: classifyEmotions_def classifyGoEmotions_def init Let_def)
  then show ?thesis
    using pick_emotions_props [OF assms(4), where thr = threshold and K = 3] by blast
qed

theorem classification_threshold_then_top3_witness:
  "trim ''I am happy'' \<noteq> []
   \<and> fst (initGoEmotions (browser_model scores_one_strong) emo_loaded) = Inr ()
   \<and> pipe (browser_model scores_one_strong) ''I am happy'' = Inr scores_one_strong
   \<and> distinct (map label scores_one_strong)
   \<and> (\<exists>out. fst (classifyEmotions (browser_model scores_one_strong) emo_loaded ''I am happy'' 0.3)
          = Inr out
        \<and> distinct (map label out) \<and> set out \<subseteq> set scores_one_strong \<and> length out = 3)
   \<and> 3 \<le> length (filter (\<lambda>e. score e \<ge> 0.3) scores_at_threshold)
   \<and> (\<exists>out. fst (classifyEmotions (browser_model scores_at_threshold) emo_loaded ''I am happy'' 0.3)
          = Inr out
        \<and> set out = set scores_at_threshold \<and> length out = 4)"
proof -
  have h1: "trim ''I am happy'' \<noteq> []"
    by (simp add: trim_letters)
  have h2: "fst (initGoEmotions (browser_model scores) emo_loaded) = Inr ()" for scores
    by (simp add: initGoEmotions_def browser_model_def emo_loaded_def)
  have h3: "pipe (browser_model scores) ''I am happy'' = Inr scores" for scores
    by (simp add: browser_model_def)
  have h4: "distinct (map label scores_one_strong)"
    by (simp add: scores_one_strong_def)
  have n: "max (length (filter (\<lambda>e. score e \<ge> 0.3) scores_one_strong))
             (min 3 (length scores_one_strong)) = 3"
    by (simp add: scores_one_strong_def)
  have padded:
    "\<exists>out. fst (classifyEmotions (browser_model scores_one_strong) emo_loaded ''I am happy'' 0.3)
          = Inr out
        \<and> distinct (map label out) \<and> set out \<subseteq> set scores_one_strong \<and> length out = 3"
    using classification_threshold_then_top3 [OF h1 h2 h3 h4, of "0.3"] n by auto
  have h4': "distinct (map label scores_at_threshold)"
    by (simp add: scores_at_threshold_def)
  have many: "3 \<le> length (filter (\<lambda>e. score e \<ge> 0.3) scores_at_threshold)"
    by (simp add: scores_at_threshold_def)
  have all: "{e \<in> set scores_at_threshold. score e \<ge> 0.3} = set scores_at_threshold"
    by (auto simp: scores_at_threshold_def)
  have n': "max (length (filter (\<lambda>e. score e \<ge> 0.3) scores_at_threshold))
             (min 3 (length scores_at_threshold)) = 4"
    by (simp add: scores_at_threshold_def)
  have exact:
    "\<exists>out. fst (classifyEmotions (browser_model scores_at_threshold) emo_loaded ''I am happy'' 0.3)
          = Inr out
        \<and> set out = set scores_at_threshold \<and> length out = 4"
    using classification_threshold_then_top3 [OF h1 h2 h3 h4', of "0.3"] many all n' by auto
  from h1 h2 h3 h4 padded many exact show ?thesis by simp
qed

text \<open>
  The claim as stated fails at the boundary: with the default threshold 0.30 an entry
  whose score is 0.3 does not exceed the threshold, and it is in the output next to
  the three that do.
\<close>

theorem score_equal_to_threshold_is_selected:
  "fst (classifyEmotions (browser_model scores_at_threshold) emo_loaded ''I am happy''
         DEFAULT_EMOTION_THRESHOLD) =
     Inr [\<lparr>label = ''joy'', score = 0.9\<rparr>, \<lparr>label = ''admiration'', score = 0.8\<rparr>,
          \<lparr>label = ''love'', score = 0.7\<rparr>, \<lparr>label = ''neutral'', score = 0.3\<rparr>]
   \<and> \<not> score \<lparr>label = ''neutral'', score = 0.3\<rparr> > DEFAULT_EMOTION_THRESHOLD"
proof -
  have sorted: "by_score scores_at_threshold =
     [\<lparr>label = ''joy'', score = 0.9\<rparr>, \<lparr>label = ''admiration'', score = 0.8\<rparr>,
      \<lparr>label = ''love'', score = 0.7\<rparr>, \<lparr>label = ''neutral'', score = 0.3\<rparr>]"
    by (simp add: by_score_def scores_at_threshold_def)
  have "pick_emotions scores_at_threshold 0.3 3 =
     [\<lparr>label = ''joy'', score = 0.9\<rparr>, \<lparr>label = ''admiration'', score = 0.8\<rparr>,
      \<lparr>label = ''love'', score = 0.7\<rparr>, \<lparr>label = ''neutral'', score = 0.3\<rparr>]"
    by (simp add: pick_emotions_def sorted push_if_new_def)
  then show ?thesis
    by (simp add: classifyEmotions_def classifyGoEmotions_def trim_letters initGoEmotions_def
        browser_model_def emo_loaded_def DEFAULT_EMOTION_THRESHOLD_def)
qed


section \<open>Properties of the aggregator tick\<close>

lemma js_round_nat: "js_round (real n) = real n"
  by (simp add: js_round_def)

lemma calculateWPM_value:
  "fst (calculateWPM s now) =
     2 * real (length (filter (\<lambda>w. ws_t w \<ge> now - 30000) (wordTimestamps s)))"
proof -
  have "js_round (real k / 30 * 60) = 2 * real k" for k
    using js_round_nat [of "2 * k"] by simp
  then show ?thesis
    by (simp add: calculateWPM_def WPM_WINDOW_SEC_def Let_def)
qed

text \<open>
  C8. At every tick time \<open>now\<close>, \<open>calculateWPM\<close> returns twice the number of words in
  \<open>wordTimestamps\<close> whose timestamp is within the trailing 30 seconds
  (\<open>t >= now - 30000\<close>), that is the count times 60 / 30; and when speech recognition is
  available the published \<open>wpm\<close> field is that number.
\<close>

theorem wpm_twice_window_count:
  "fst (calculateWPM s now) =
     2 * real (length (filter (\<lambda>w. ws_t w \<ge> now - 30000) (wordTimestamps s)))
   \<and> wpm (fst (publishMetrics s now True)) =
     Some (2 * real (length (filter (\<lambda>w. ws_t w \<ge> now - 30000) (wordTimestamps s))))"
  by (simp add: calculateWPM_value publishMetrics_def Let_def)

theorem wpm_twice_window_count_witness:
  "fst (calculateWPM controller_three_words 45000) = 4
   \<and> wpm (fst (publishMetrics controller_three_words 45000 True)) = Some 4"
  using wpm_twice_window_count [of controller_three_words 45000]
  by (simp add: controller_three_words_def controller_running_def controller_created_def)

lemma publishMetrics_allMetrics:
  "allMetrics (snd (publishMetrics s now asrAvailable)) =
     trim_buffer (allMetrics s @ [fst (publishMetrics s now asrAvailable)])"
  by (simp add: publishMetrics_def Let_def calculateWPM_def)

lemma trim_buffer_push:
  "trim_buffer (h @ [e]) = (if length h < 18000 then h @ [e] else tl h @ [e])"
  by (cases h) (simp_all add: trim_buffer_def MAX_METRICS_BUFFER_def)

lemma history_bound_tick:
  "length (allMetrics s) \<le> 18000 \<Longrightarrow>
     length (allMetrics (snd (publishMetrics s now asrAvailable))) \<le> 18000"
  by (simp add: publishMetrics_allMetrics trim_buffer_push)

lemma history_bound_ticks:
  "length (allMetrics s) \<le> 18000 \<Longrightarrow>
     length (allMetrics (snd (audio_ticks s asrAvailable ticks))) \<le> 18000"
proof (induction ticks arbitrary: s)
  case Nil
  then show ?case by simp
next
  case (Cons m ticks)
  obtain now msg where m: "m = (now, msg)" by (cases m)
  from Cons.prems have "length (allMetrics (s\<lparr>latestAudioData := msg\<rparr>)) \<le> 18000"
    by simp
  then have "length (allMetrics (snd (publishMetrics (s\<lparr>latestAudioData := msg\<rparr>) now
      asrAvailable))) \<le> 18000"
    by (rule history_bound_tick)
  then show ?case
    by (simp add: m Let_def Cons.IH)
qed

text \<open>
  C9. A tick appends its event to the history; when the history already held 18000
  entries (or more) the oldest entry, the one at the front, is dropped. A history of
  at most 18000 entries, as it is from \<open>start()\<close> on, has at most 18000 after the tick,
  and after any run of ticks.
\<close>

theorem history_capped_oldest_evicted:
  "allMetrics (snd (publishMetrics s now asrAvailable)) =
     (if length (allMetrics s) < 18000
      then allMetrics s @ [fst (publishMetrics s now asrAvailable)]
      else tl (allMetrics s) @ [fst (publishMetrics s now asrAvailable)])
   \<and> (length (allMetrics s) \<le> 18000 \<longrightarrow>
        length (allMetrics (snd (publishMetrics s now asrAvailable))) \<le> 18000
        \<and> length (allMetrics (snd (audio_ticks s asrAvailable ticks))) \<le> 18000)"
  by (simp add: publishMetrics_allMetrics trim_buffer_push history_bound_ticks)

theorem history_capped_oldest_evicted_witness:
  "length (allMetrics controller_at_cap) = 18000
   \<and> hd (allMetrics controller_at_cap) = blank_event 0
   \<and> allMetrics (snd (publishMetrics controller_at_cap 200 True)) =
       replicate 17999 (blank_event 100) @ [fst (publishMetrics controller_at_cap 200 True)]
   \<and> length (allMetrics (snd (publishMetrics controller_at_cap 200 True))) \<le> 18000
   \<and> length (allMetrics (snd (audio_ticks controller_at_cap True silence_then_speech))) \<le> 18000"
  using history_capped_oldest_evicted [of controller_at_cap 200 True silence_then_speech]
  by (simp add: controller_at_cap_def)

text \<open>
  C4, as the code has it. Once the worklet has reported a frame, the published \<open>rms\<close>
  field is present and equal to the reported loudness, 0 included; the published
  \<open>pitch_hz\<close> field is present only for a reported pitch above 0, so a no-pitch frame
  (pitch 0) is published with the pitch field absent.
\<close>

theorem audio_fields_published:
  "rms (fst (publishMetrics (s\<lparr>latestAudioData := \<lparr>ad_rms = Some r, ad_pitch = Some p\<rparr>\<rparr>)
         now asrAvailable)) = Some r
   \<and> pitch_hz (fst (publishMetrics (s\<lparr>latestAudioData := \<lparr>ad_rms = Some r, ad_pitch = Some p\<rparr>\<rparr>)
         now asrAvailable)) = (if p > 0 then Some p else None)
   \<and> rms (fst (publishMetrics (s\<lparr>latestAudioData := \<lparr>ad_rms = Some 0, ad_pitch = Some 0\<rparr>\<rparr>)
         now asrAvailable)) = Some 0
   \<and> pitch_hz (fst (publishMetrics (s\<lparr>latestAudioData := \<lparr>ad_rms = Some 0, ad_pitch = Some 0\<rparr>\<rparr>)
         now asrAvailable)) = None"
  by (simp add: publishMetrics_def Let_def calculateWPM_def)

text \<open>
  The claim as stated fails: after a silent, no-pitch frame the tick at 100 ms publishes
  no pitch field at all, not a pitch field equal to 0.
\<close>

theorem no_pitch_frame_pitch_absent:
  "pitch_hz (fst (publishMetrics
       (controller_running\<lparr>latestAudioData := \<lparr>ad_rms = Some 0, ad_pitch = Some 0\<rparr>\<rparr>) 100 True))
     = None
   \<and> pitch_hz (fst (publishMetrics
       (controller_running\<lparr>latestAudioData := \<lparr>ad_rms = Some 0, ad_pitch = Some 0\<rparr>\<rparr>) 100 True))
     \<noteq> Some 0"
  by (simp add: publishMetrics_def Let_def calculateWPM_def)

subsection \<open>The loudness history behind the pause ratio\<close>

lemma publishMetrics_rmsHistory:
  "rmsHistory (snd (publishMetrics s now asrAvailable)) =
     trim_history (rmsHistory s @ [or_zero (ad_rms (latestAudioData s))])"
  by (simp add: publishMetrics_def Let_def calculateWPM_def)

lemma trim_history_nonempty: "trim_history (h @ [r]) \<noteq> []"
  by (cases h) (simp_all add: trim_history_def TONE_HISTORY_SIZE_def)

lemma publishMetrics_pause_ratio:
  "pause_ratio (fst (publishMetrics s now asrAvailable)) =
     Some (calculatePauseRatio (rmsHistory (snd (publishMetrics s now asrAvailable))))"
  by (simp add: publishMetrics_def Let_def calculateWPM_def trim_history_nonempty)

lemma audio_ticks_rmsHistory:
  "rmsHistory (snd (audio_ticks s asrAvailable ticks)) =
     foldl (\<lambda>h r. trim_history (h @ [r])) (rmsHistory s) (map (\<lambda>m. or_zero (ad_rms (snd m))) ticks)"
proof (induction ticks arbitrary: s)
  case Nil
  show ?case by simp
next
  case (Cons m ticks)
  obtain now msg where m: "m = (now, msg)" by (cases m)
  show ?case
    by (simp add: m Let_def Cons.IH publishMetrics_rmsHistory)
qed

lemma trim_history_fold:
  "length h \<le> 30 \<Longrightarrow>
     foldl (\<lambda>h r. trim_history (h @ [r])) h rs = drop (length (h @ rs) - 30) (h @ rs)"
proof (induction rs arbitrary: h)
  case Nil
  then show ?case by simp
next
  case (Cons r rs)
  show ?case
  proof (cases "length h = 30")
    case True
    then obtain x h' where h: "h = x # h'" and h': "length h' = 29"
      by (cases h) auto
    have t: "trim_history (h @ [r]) = h' @ [r]"
      by (simp add: h h' trim_history_def TONE_HISTORY_SIZE_def)
    have "foldl (\<lambda>h r. trim_history (h @ [r])) h (r # rs) =
            foldl (\<lambda>h r. trim_history (h @ [r])) (h' @ [r]) rs"
      by (simp only: foldl.simps t)
    also have "\<dots> = drop (length ((h' @ [r]) @ rs) - 30) ((h' @ [r]) @ rs)"
      by (rule Cons.IH) (simp add: h')
    also have "\<dots> = drop (length (h @ r # rs) - 30) (h @ r # rs)"
      by (simp add: h h')
    finally show ?thesis .
  next
    case False
    with Cons.prems have short: "length h < 30" by simp
    then have t: "trim_history (h @ [r]) = h @ [r]"
      by (simp add: trim_history_def TONE_HISTORY_SIZE_def)
    have "foldl (\<lambda>h r. trim_history (h @ [r])) h (r # rs) =
            foldl (\<lambda>h r. trim_history (h @ [r])) (h @ [r]) rs"
      by (simp only: foldl.simps t)
    also have "\<dots> = drop (length ((h @ [r]) @ rs) - 30) ((h @ [r]) @ rs)"
      by (rule Cons.IH) (use short in simp)
    also have "\<dots> = drop (length (h @ r # rs) - 30) (h @ r # rs)"
      by simp
    finally show ?thesis .
  qed
qed

lemma audio_ticks_last_pause_ratio:
  "ticks \<noteq> [] \<Longrightarrow>
     pause_ratio (last (fst (audio_ticks s asrAvailable ticks))) =
       Some (calculatePauseRatio (rmsHistory (snd (audio_ticks s asrAvailable ticks))))"
proof (induction ticks arbitrary: s)
  case Nil
  then show ?case by simp
next
  case (Cons m ticks)
  obtain now msg where m: "m = (now, msg)" by (cases m)
  show ?case
  proof (cases ticks)
    case Nil
    then show ?thesis by (simp add: m Let_def publishMetrics_pause_ratio)
  next
    case (Cons m' ticks')
    then have ne: "ticks \<noteq> []" by simp
    obtain now' msg' where m': "m' = (now', msg')" by (cases m')
    have "fst (audio_ticks (snd (publishMetrics (s\<lparr>latestAudioData := msg\<rparr>) now asrAvailable)) asrAvailable ticks) \<noteq> []"
      by (simp add: Cons m' Let_def)
    then show ?thesis
      using Cons.IH [OF ne] by (simp add: m Let_def)
  qed
qed


lemma published_pause_ratio_last_30:
  assumes "rmsHistory s = []" and "ticks \<noteq> []"
  shows "pause_ratio (last (fst (audio_ticks s asrAvailable ticks))) =
     Some (calculatePauseRatio
       (drop (length ticks - 30) (map (\<lambda>m. or_zero (ad_rms (snd m))) ticks)))"
  using trim_history_fold [of "[]" "map (\<lambda>m. or_zero (ad_rms (snd m))) ticks"]
  by (simp add: audio_ticks_last_pause_ratio [OF assms(2)] audio_ticks_rmsHistory assms(1))

lemma silence_then_speech_rms:
  "map (\<lambda>m. or_zero (ad_rms (snd m))) silence_then_speech = 0 # map (\<lambda>k. 1 / 2) [2 ..< 32]"
  by (simp add: silence_then_speech_def or_zero_def)

lemma silence_then_speech_history:
  "rmsHistory (snd (audio_ticks controller_running True silence_then_speech)) =
     map (\<lambda>k. 1 / 2) [2 ..< 32]"
proof -
  have start: "rmsHistory controller_running = []"
    by (simp add: controller_running_def controller_created_def)
  have "rmsHistory (snd (audio_ticks controller_running True silence_then_speech)) =
          foldl (\<lambda>h r. trim_history (h @ [r])) [] (0 # map (\<lambda>k. 1 / 2) [2 ..< 32])"
    by (simp only: audio_ticks_rmsHistory silence_then_speech_rms start)
  also have "\<dots> = map (\<lambda>k. 1 / 2) [2 ..< 32]"
    using trim_history_fold [of "[]" "0 # map (\<lambda>k. 1 / 2) [2 ..< 32]"] by simp
  finally show ?thesis .
qed

lemma silence_then_speech_published:
  "pause_ratio (last (fst (audio_ticks controller_running True silence_then_speech))) = Some 0"
proof -
  have "silence_then_speech \<noteq> []"
    by (simp add: silence_then_speech_def)
  then show ?thesis
    by (simp add: audio_ticks_last_pause_ratio silence_then_speech_history
        calculatePauseRatio_def RMS_NOISE_FLOOR_def)
qed

lemma silence_then_speech_window:
  "window_pause_ratio (map (\<lambda>m. (fst m, or_zero (ad_rms (snd m)))) silence_then_speech) 3100
     = 1 / 31"
proof -
  have "map (\<lambda>m. (fst m, or_zero (ad_rms (snd m)))) silence_then_speech =
     (100, 0) # map (\<lambda>k. (100 * int k, 1 / 2)) [2 ..< 32]"
    by (simp add: silence_then_speech_def or_zero_def)
  then show ?thesis
    by (simp add: window_pause_ratio_def PAUSE_WINDOW_SEC_def RMS_NOISE_FLOOR_def)
qed

text \<open>
  C1, evaluated where the code leaves it. In the 10 Hz session \<open>silence_then_speech\<close> the
  31st tick, at 3100 ms, publishes pause ratio 0: the history behind it holds the last
  \<open>TONE_HISTORY_SIZE\<close> = 30 samples, and the silent first sample has been shifted out.
  All 31 samples lie within the trailing 10 seconds, and one of them is below the
  threshold, so the ratio over the 10-second window is 1/31.
\<close>

theorem pause_ratio_window_is_30_samples:
  "pause_ratio (last (fst (audio_ticks controller_running True silence_then_speech))) = Some 0
   \<and> window_pause_ratio (map (\<lambda>m. (fst m, or_zero (ad_rms (snd m)))) silence_then_speech) 3100
       = 1 / 31"
  by (simp add: silence_then_speech_published silence_then_speech_window)

section \<open>Properties of \<open>stop()\<close>\<close>

lemma escaped_call:
  "escaped_ok throws r \<Longrightarrow> k \<noteq> RecognitionStop \<Longrightarrow> escaped_ok throws (call throws k f r)"
  by (simp add: escaped_ok_def call_def split: option.splits)

lemma escaped_asr: "escaped_ok throws r \<Longrightarrow> escaped_ok throws (asrService_stop throws r)"
  by (simp add: escaped_ok_def asrService_stop_def Let_def split: option.splits)

lemma escaped_track_loop:
  "escaped_ok throws r \<Longrightarrow>
     escaped_ok throws (foldl (\<lambda>q track. call throws (TrackStop track) (\<lambda>c. c) q) r tracks)"
  by (induction tracks arbitrary: r) (simp_all add: escaped_call)

lemma escaped_tracks: "escaped_ok throws r \<Longrightarrow> escaped_ok throws (stop_tracks throws tracks r)"
  using escaped_track_loop [of throws r tracks]
  by (simp add: stop_tracks_def Let_def) (simp add: escaped_ok_def)

lemma escaped_steps:
  assumes "escaped_ok throws r"
  shows "escaped_ok throws (stop_timer throws r)"
    and "escaped_ok throws (stop_face_loop throws r)"
    and "escaped_ok throws (stop_face_worker throws r)"
    and "escaped_ok throws (stop_audio_node throws r)"
    and "escaped_ok throws (stop_audio_context throws r)"
    and "escaped_ok throws (stop_recorder throws r)"
    and "escaped_ok throws (stop_stream throws r)"
    and "escaped_ok throws (clear_video throws r)"
    and "escaped_ok throws (dispatch_stopped throws r)"
    and "escaped_ok throws (log_stopped r)"
  using assms
  by (simp_all add: stop_timer_def stop_face_loop_def stop_face_worker_def stop_audio_node_def
      stop_audio_context_def stop_recorder_def stop_stream_def clear_video_def
      dispatch_stopped_def escaped_call escaped_tracks split: option.splits)
    (simp_all add: log_stopped_def escaped_ok_def)

lemma stop_escaped: "escaped_ok throws (stop throws now s a)"
proof (cases "\<not> isRunning s \<and> stream s = None")
  case True
  then show ?thesis by (simp add: stop_def escaped_ok_def)
next
  case False
  have "escaped_ok throws \<lparr>ctl = s\<lparr>isRunning := False, endTime := now\<rparr>, asr = a, raised = None,
                   calls = [], console = []\<rparr>"
    by (simp add: escaped_ok_def)
  then show ?thesis
    using False
    by (auto simp: stop_def Let_def escaped_steps escaped_asr)
qed


lemma call_completes:
  "raised r = None \<Longrightarrow> \<not> throws k \<Longrightarrow> completes r (call throws k f r) f"
  by (simp add: completes_def call_def)

lemma track_loop_completes:
  "raised r = None \<Longrightarrow> quiet throws \<Longrightarrow>
     completes r (foldl (\<lambda>q track. call throws (TrackStop track) (\<lambda>c. c) q) r tracks) (\<lambda>c. c)"
proof (induction tracks arbitrary: r)
  case Nil
  then show ?case by (simp add: completes_def)
next
  case (Cons t tracks)
  from Cons.prems have one: "completes r (call throws (TrackStop t) (\<lambda>c. c) r) (\<lambda>c. c)"
    by (simp add: call_completes quiet_def)
  then have "raised (call throws (TrackStop t) (\<lambda>c. c) r) = None"
    by (simp add: completes_def)
  from Cons.IH [OF this Cons.prems(2)] one show ?case
    by (simp add: completes_def)
qed

lemma step_completes:
  assumes "raised r = None" and "quiet throws"
  shows "completes r (stop_timer throws r) (\<lambda>c. c\<lparr>metricsIntervalId := None\<rparr>)"
    and "completes r (stop_face_loop throws r) (\<lambda>c. c\<lparr>faceLoopId := None\<rparr>)"
    and "completes r (stop_face_worker throws r) (\<lambda>c. c\<lparr>faceWorker := False\<rparr>)"
    and "completes r (stop_audio_node throws r) (\<lambda>c. c\<lparr>audioWorkletNode := False\<rparr>)"
    and "completes r (stop_audio_context throws r) (\<lambda>c. c\<lparr>audioContext := False\<rparr>)"
    and "completes r (stop_recorder throws r)
           (\<lambda>c. c\<lparr>mediaRecorder := map_option (\<lambda>st. Inactive) (mediaRecorder c)\<rparr>)"
    and "completes r (stop_stream throws r) (\<lambda>c. c\<lparr>stream := None\<rparr>)"
    and "completes r (clear_video throws r)
           (\<lambda>c. c\<lparr>videoElement := map_option (\<lambda>v. False) (videoElement c)\<rparr>)"
    and "completes r (dispatch_stopped throws r) (\<lambda>c. c)"
proof -
  have no: "\<not> throws ClearInterval" "\<not> throws CancelAnimationFrame" "\<not> throws WorkerTerminate"
    "\<not> throws NodeDisconnect" "\<not> throws ContextClose" "\<not> throws RecorderStop"
    "\<not> throws ClearSrcObject" "\<not> throws DispatchStopped"
    using assms(2) by (simp_all add: quiet_def)
  show "completes r (stop_timer throws r) (\<lambda>c. c\<lparr>metricsIntervalId := None\<rparr>)"
    using assms(1) no by (simp add: stop_timer_def completes_def call_def)
  show "completes r (stop_face_loop throws r) (\<lambda>c. c\<lparr>faceLoopId := None\<rparr>)"
    using assms(1) no by (simp add: stop_face_loop_def completes_def call_def)
  show "completes r (stop_face_worker throws r) (\<lambda>c. c\<lparr>faceWorker := False\<rparr>)"
    using assms(1) no by (simp add: stop_face_worker_def completes_def call_def)
  show "completes r (stop_audio_node throws r) (\<lambda>c. c\<lparr>audioWorkletNode := False\<rparr>)"
    using assms(1) no by (simp add: stop_audio_node_def completes_def call_def)
  show "completes r (stop_audio_context throws r) (\<lambda>c. c\<lparr>audioContext := False\<rparr>)"
    using assms(1) no by (simp add: stop_audio_context_def completes_def call_def)
  show "completes r (stop_recorder throws r)
           (\<lambda>c. c\<lparr>mediaRecorder := map_option (\<lambda>st. Inactive) (mediaRecorder c)\<rparr>)"
    using assms(1) no
    by (simp add: stop_recorder_def completes_def call_def split: option.splits)
  show "completes r (stop_stream throws r) (\<lambda>c. c\<lparr>stream := None\<rparr>)"
  proof (cases "stream (ctl r)")
    case None
    then show ?thesis by (simp add: stop_stream_def completes_def assms(1))
  next
    case (Some tracks)
    with track_loop_completes [OF assms, of tracks] show ?thesis
      by (simp add: stop_stream_def stop_tracks_def Let_def completes_def)
  qed
  show "completes r (clear_video throws r)
           (\<lambda>c. c\<lparr>videoElement := map_option (\<lambda>v. False) (videoElement c)\<rparr>)"
    using assms(1) no
    by (simp add: clear_video_def completes_def call_def split: option.splits)
  show "completes r (dispatch_stopped throws r) (\<lambda>c. c)"
    using assms(1) no by (simp add: dispatch_stopped_def completes_def call_def)
qed


lemma asr_step:
  assumes "raised r = None"
  shows "raised (asrService_stop throws r) = None"
    and "ctl (asrService_stop throws r) = ctl r"
    and "console (asrService_stop throws r) =
           console r @
           (if asr_instance (asr r) \<and> asr_recognition (asr r) \<and> asr_isRunning (asr r)
               \<and> throws RecognitionStop
            then [''ASR stop error''] else [])"
  using assms by (simp_all add: asrService_stop_def Let_def)

lemma stop_quiet:
  assumes q: "quiet throws" and busy: "isRunning s \<or> stream s \<noteq> None"
  shows "raised (stop throws now s a) = None"
    and "ctl (stop throws now s a) =
           s\<lparr>isRunning := False, endTime := now, metricsIntervalId := None, faceLoopId := None,
             faceWorker := False, audioWorkletNode := False, audioContext := False,
             mediaRecorder := map_option (\<lambda>st. Inactive) (mediaRecorder s), stream := None,
             videoElement := map_option (\<lambda>v. False) (videoElement s)\<rparr>"
    and "console (stop throws now s a) =
           (if asr_instance a \<and> asr_recognition a \<and> asr_isRunning a \<and> throws RecognitionStop
            then [''ASR stop error''] else [])
           @ [''Analytics controller stopped'']"
proof -
  define r0 where "r0 = \<lparr>ctl = s\<lparr>isRunning := False, endTime := now\<rparr>, asr = a, raised = None,
                   calls = [], console = []\<rparr>"
  define r1 where "r1 = stop_timer throws r0"
  define r2 where "r2 = asrService_stop throws r1"
  define r3 where "r3 = stop_face_loop throws r2"
  define r4 where "r4 = stop_face_worker throws r3"
  define r5 where "r5 = stop_audio_node throws r4"
  define r6 where "r6 = stop_audio_context throws r5"
  define r7 where "r7 = stop_recorder throws r6"
  define r8 where "r8 = stop_stream throws r7"
  define r9 where "r9 = clear_video throws r8"
  define r10 where "r10 = dispatch_stopped throws r9"
  have st: "stop throws now s a = log_stopped r10"
    using busy
    by (auto simp: stop_def Let_def r0_def r1_def r2_def r3_def r4_def r5_def r6_def r7_def
        r8_def r9_def r10_def)
  have n0: "raised r0 = None"
    by (simp add: r0_def)
  have c1: "completes r0 r1 (\<lambda>c. c\<lparr>metricsIntervalId := None\<rparr>)"
    unfolding r1_def by (rule step_completes [OF n0 q])
  then have n1: "raised r1 = None"
    by (simp add: completes_def)
  have n2: "raised r2 = None"
    unfolding r2_def by (rule asr_step [OF n1])
  have c3: "completes r2 r3 (\<lambda>c. c\<lparr>faceLoopId := None\<rparr>)"
    unfolding r3_def by (rule step_completes [OF n2 q])
  then have n3: "raised r3 = None"
    by (simp add: completes_def)
  have c4: "completes r3 r4 (\<lambda>c. c\<lparr>faceWorker := False\<rparr>)"
    unfolding r4_def by (rule step_completes [OF n3 q])
  then have n4: "raised r4 = None"
    by (simp add: completes_def)
  have c5: "completes r4 r5 (\<lambda>c. c\<lparr>audioWorkletNode := False\<rparr>)"
    unfolding r5_def by (rule step_completes [OF n4 q])
  then have n5: "raised r5 = None"
    by (simp add: completes_def)
  have c6: "completes r5 r6 (\<lambda>c. c\<lparr>audioContext := False\<rparr>)"
    unfolding r6_def by (rule step_completes [OF n5 q])
  then have n6: "raised r6 = None"
    by (simp add: completes_def)
  have c7: "completes r6 r7 (\<lambda>c. c\<lparr>mediaRecorder := map_option (\<lambda>st. Inactive) (mediaRecorder c)\<rparr>)"
    unfolding r7_def by (rule step_completes [OF n6 q])
  then have n7: "raised r7 = None"
    by (simp add: completes_def)
  have c8: "completes r7 r8 (\<lambda>c. c\<lparr>stream := None\<rparr>)"
    unfolding r8_def by (rule step_completes [OF n7 q])
  then have n8: "raised r8 = None"
    by (simp add: completes_def)
  have c9: "completes r8 r9 (\<lambda>c. c\<lparr>videoElement := map_option (\<lambda>v. False) (videoElement c)\<rparr>)"
    unfolding r9_def by (rule step_completes [OF n8 q])
  then have n9: "raised r9 = None"
    by (simp add: completes_def)
  have c10: "completes r9 r10 (\<lambda>c. c)"
    unfolding r10_def by (rule step_completes [OF n9 q])
  then have n10: "raised r10 = None"
    by (simp add: completes_def)
  show "raised (stop throws now s a) = None"
    by (simp add: st log_stopped_def n10)
  have "ctl r10 = ctl r9" using c10 by (simp add: completes_def)
  also have "\<dots> = (ctl r8)\<lparr>videoElement := map_option (\<lambda>v. False) (videoElement (ctl r8))\<rparr>"
    using c9 by (simp add: completes_def)
  also have "ctl r8 = (ctl r7)\<lparr>stream := None\<rparr>"
    using c8 by (simp add: completes_def)
  also have "ctl r7 = (ctl r6)\<lparr>mediaRecorder := map_option (\<lambda>st. Inactive) (mediaRecorder (ctl r6))\<rparr>"
    using c7 by (simp add: completes_def)
  also have "ctl r6 = (ctl r5)\<lparr>audioContext := False\<rparr>"
    using c6 by (simp add: completes_def)
  also have "ctl r5 = (ctl r4)\<lparr>audioWorkletNode := False\<rparr>"
    using c5 by (simp add: completes_def)
  also have "ctl r4 = (ctl r3)\<lparr>faceWorker := False\<rparr>"
    using c4 by (simp add: completes_def)
  also have "ctl r3 = (ctl r2)\<lparr>faceLoopId := None\<rparr>"
    using c3 by (simp add: completes_def)
  also have "ctl r2 = ctl r1"
    unfolding r2_def by (rule asr_step [OF n1])
  also have "ctl r1 = (ctl r0)\<lparr>metricsIntervalId := None\<rparr>"
    using c1 by (simp add: completes_def)
  also have "ctl r0 = s\<lparr>isRunning := False, endTime := now\<rparr>"
    by (simp add: r0_def)
  finally have "ctl r10 =
           s\<lparr>isRunning := False, endTime := now, metricsIntervalId := None, faceLoopId := None,
             faceWorker := False, audioWorkletNode := False, audioContext := False,
             mediaRecorder := map_option (\<lambda>st. Inactive) (mediaRecorder s), stream := None,
             videoElement := map_option (\<lambda>v. False) (videoElement s)\<rparr>"
    by simp
  then show "ctl (stop throws now s a) =
           s\<lparr>isRunning := False, endTime := now, metricsIntervalId := None, faceLoopId := None,
             faceWorker := False, audioWorkletNode := False, audioContext := False,
             mediaRecorder := map_option (\<lambda>st. Inactive) (mediaRecorder s), stream := None,
             videoElement := map_option (\<lambda>v. False) (videoElement s)\<rparr>"
    by (simp add: st log_stopped_def n10)
  have "console r10 = console r2"
    using c3 c4 c5 c6 c7 c8 c9 c10 by (simp add: completes_def)
  also have "\<dots> = console r1 @
           (if asr_instance (asr r1) \<and> asr_recognition (asr r1) \<and> asr_isRunning (asr r1)
               \<and> throws RecognitionStop
            then [''ASR stop error''] else [])"
    unfolding r2_def by (rule asr_step [OF n1])
  finally have "console r10 = console r1 @
           (if asr_instance (asr r1) \<and> asr_recognition (asr r1) \<and> asr_isRunning (asr r1)
               \<and> throws RecognitionStop
            then [''ASR stop error''] else [])" .
  moreover have "console r1 = []" and "asr r1 = a"
    using c1 by (simp_all add: completes_def r0_def)
  ultimately show "console (stop throws now s a) =
           (if asr_instance a \<and> asr_recognition a \<and> asr_isRunning a \<and> throws RecognitionStop
            then [''ASR stop error''] else [])
           @ [''Analytics controller stopped'']"
    by (simp add: st log_stopped_def n10)
qed


lemma call_console: "console (call throws k f r) = console r"
  by (simp add: call_def)

lemma track_loop_console:
  "console (foldl (\<lambda>q track. call throws (TrackStop track) (\<lambda>c. c) q) r tracks) = console r"
  by (induction tracks arbitrary: r) (simp_all add: call_console)

lemma step_console:
  "console (stop_timer throws r) = console r"
  "console (stop_face_loop throws r) = console r"
  "console (stop_face_worker throws r) = console r"
  "console (stop_audio_node throws r) = console r"
  "console (stop_audio_context throws r) = console r"
  "console (stop_recorder throws r) = console r"
  "console (stop_stream throws r) = console r"
  "console (clear_video throws r) = console r"
  "console (dispatch_stopped throws r) = console r"
  by (simp_all add: stop_timer_def stop_face_loop_def stop_face_worker_def stop_audio_node_def
      stop_audio_context_def stop_recorder_def stop_stream_def stop_tracks_def clear_video_def
      dispatch_stopped_def call_console track_loop_console Let_def split: option.splits)

lemma asr_console:
  "console (asrService_stop throws r) = console r
   \<or> console (asrService_stop throws r) = console r @ [''ASR stop error'']"
  by (simp add: asrService_stop_def Let_def)

lemma stop_escaped_console:
  assumes "raised (stop throws now s a) = Some c"
  shows "console (stop throws now s a) = [] \<or> console (stop throws now s a) = [''ASR stop error'']"
proof (cases "\<not> isRunning s \<and> stream s = None")
  case True
  then show ?thesis by (simp add: stop_def)
next
  case False
  define r0 where "r0 = \<lparr>ctl = s\<lparr>isRunning := False, endTime := now\<rparr>, asr = a, raised = None,
                   calls = [], console = []\<rparr>"
  define r10 where "r10 =
     dispatch_stopped throws (clear_video throws (stop_stream throws (stop_recorder throws
       (stop_audio_context throws (stop_audio_node throws (stop_face_worker throws
         (stop_face_loop throws (asrService_stop throws (stop_timer throws r0)))))))))"
  have st: "stop throws now s a = log_stopped r10"
    using False by (auto simp: stop_def Let_def r0_def r10_def)
  with assms have "raised r10 = Some c"
    by (simp add: log_stopped_def split: if_splits)
  then have same: "console (stop throws now s a) = console r10"
    by (simp add: st log_stopped_def)
  have "console (stop_timer throws r0) = []"
    by (simp add: step_console r0_def)
  with asr_console [of throws "stop_timer throws r0"]
  have "console r10 = [] \<or> console r10 = [''ASR stop error'']"
    by (simp add: r10_def step_console)
  with same show ?thesis by simp
qed

subsection \<open>The run against the plan\<close>

lemma find_over_append:
  "find P (xs @ ys) = (case find P xs of None \<Rightarrow> find P ys | Some x \<Rightarrow> Some x)"
  by (induction xs) simp_all

lemma follows_after_raise:
  assumes "follows throws cs r" and "raised r \<noteq> None"
  shows "follows throws (cs @ rest) r"
proof -
  from assms obtain c where c: "find (\<lambda>c. c \<noteq> RecognitionStop \<and> throws c) cs = Some c"
    by (auto simp: follows_def)
  then have "find (\<lambda>c. c \<noteq> RecognitionStop \<and> throws c) cs \<noteq> None"
    by simp
  then obtain x where "x \<in> set cs" and "\<not> (x = RecognitionStop \<or> \<not> throws x)"
    by (auto simp: find_None_iff)
  then have "takeWhile (\<lambda>c. c = RecognitionStop \<or> \<not> throws c) (cs @ rest) =
      takeWhile (\<lambda>c. c = RecognitionStop \<or> \<not> throws c) cs"
    by (rule takeWhile_append1)
  with assms(1) c show ?thesis
    by (simp add: follows_def find_over_append)
qed

lemma follows_none:
  assumes "follows throws cs r" and "raised r = None"
  shows "\<forall>x\<in>set cs. x = RecognitionStop \<or> \<not> throws x"
    and "find (\<lambda>c. c \<noteq> RecognitionStop \<and> throws c) cs = None"
    and "calls r = filter (\<lambda>c. \<not> throws c) cs"
proof -
  from assms show none: "find (\<lambda>c. c \<noteq> RecognitionStop \<and> throws c) cs = None"
    by (simp add: follows_def)
  then show all: "\<forall>x\<in>set cs. x = RecognitionStop \<or> \<not> throws x"
    by (simp add: find_None_iff)
  then have "takeWhile (\<lambda>c. c = RecognitionStop \<or> \<not> throws c) cs = cs"
    by (simp only: takeWhile_eq_all_conv)
  with assms(1) show "calls r = filter (\<lambda>c. \<not> throws c) cs"
    by (simp add: follows_def)
qed

lemma follows_call:
  assumes "follows throws cs r" and "k \<noteq> RecognitionStop"
  shows "follows throws (cs @ [k]) (call throws k f r)"
proof (cases "raised r = None")
  case False
  then have "call throws k f r = r" by (simp add: call_def)
  with follows_after_raise [OF assms(1) False] show ?thesis by simp
next
  case True
  from follows_none [OF assms(1) True] True assms(2) show ?thesis
    by (simp add: follows_def call_def find_over_append takeWhile_append2)
qed

lemma follows_asr:
  assumes "follows throws cs r"
  shows "follows throws (cs @ (if asr_active (asr r) then [RecognitionStop] else []))
           (asrService_stop throws r)"
proof (cases "raised r = None")
  case False
  then have "asrService_stop throws r = r" by (simp add: asrService_stop_def)
  with follows_after_raise [OF assms False] show ?thesis by simp
next
  case True
  from follows_none [OF assms True] True assms show ?thesis
    by (simp add: follows_def asrService_stop_def asr_active_def Let_def find_over_append
        takeWhile_append2)
qed

lemma follows_track_loop:
  "follows throws cs r \<Longrightarrow>
     follows throws (cs @ map TrackStop tracks)
       (foldl (\<lambda>q track. call throws (TrackStop track) (\<lambda>c. c) q) r tracks)"
proof (induction tracks arbitrary: cs r)
  case Nil
  then show ?case by simp
next
  case (Cons t tracks)
  have "follows throws (cs @ [TrackStop t]) (call throws (TrackStop t) (\<lambda>c. c) r)"
    by (rule follows_call [OF Cons.prems]) simp
  from Cons.IH [OF this] show ?case by simp
qed


lemma follows_same: "follows throws cs r \<Longrightarrow> follows throws (cs @ []) r"
  by simp

lemma follows_steps:
  assumes "follows throws cs r"
  shows "follows throws (cs @ (if metricsIntervalId (ctl r) \<noteq> None then [ClearInterval] else []))
           (stop_timer throws r)"
    and "follows throws (cs @ (if faceLoopId (ctl r) \<noteq> None then [CancelAnimationFrame] else []))
           (stop_face_loop throws r)"
    and "follows throws (cs @ (if faceWorker (ctl r) then [WorkerTerminate] else []))
           (stop_face_worker throws r)"
    and "follows throws (cs @ (if audioWorkletNode (ctl r) then [NodeDisconnect] else []))
           (stop_audio_node throws r)"
    and "follows throws (cs @ (if audioContext (ctl r) then [ContextClose] else []))
           (stop_audio_context throws r)"
    and "follows throws
           (cs @ (case mediaRecorder (ctl r) of
                    None \<Rightarrow> []
                  | Some st \<Rightarrow> if st \<noteq> Inactive then [RecorderStop] else []))
           (stop_recorder throws r)"
    and "follows throws (cs @ (case videoElement (ctl r) of None \<Rightarrow> [] | Some v \<Rightarrow> [ClearSrcObject]))
           (clear_video throws r)"
    and "follows throws (cs @ [DispatchStopped]) (dispatch_stopped throws r)"
  using assms
  by (simp_all add: stop_timer_def stop_face_loop_def stop_face_worker_def stop_audio_node_def
      stop_audio_context_def stop_recorder_def clear_video_def dispatch_stopped_def
      follows_call split: option.splits)

lemma follows_stream:
  assumes "follows throws cs r"
  shows "follows throws
           (cs @ (case stream (ctl r) of None \<Rightarrow> [] | Some tracks \<Rightarrow> map TrackStop tracks))
           (stop_stream throws r)"
proof (cases "stream (ctl r)")
  case None
  with assms show ?thesis by (simp add: stop_stream_def)
next
  case (Some tracks)
  from follows_track_loop [OF assms, of tracks] Some show ?thesis
    by (simp add: stop_stream_def stop_tracks_def Let_def follows_def)
qed

lemma follows_log: "follows throws cs r \<Longrightarrow> follows throws cs (log_stopped r)"
  by (simp add: follows_def log_stopped_def)

lemma call_frame:
  "ctl (call throws k f r) = ctl r \<or> ctl (call throws k f r) = f (ctl r)"
  by (simp add: call_def)

lemma step_frames:
  "faceLoopId (ctl (stop_timer throws r)) = faceLoopId (ctl r)"
  "faceWorker (ctl (stop_timer throws r)) = faceWorker (ctl r)"
  "audioWorkletNode (ctl (stop_timer throws r)) = audioWorkletNode (ctl r)"
  "audioContext (ctl (stop_timer throws r)) = audioContext (ctl r)"
  "mediaRecorder (ctl (stop_timer throws r)) = mediaRecorder (ctl r)"
  "stream (ctl (stop_timer throws r)) = stream (ctl r)"
  "videoElement (ctl (stop_timer throws r)) = videoElement (ctl r)"
  "asr (stop_timer throws r) = asr r"
  "ctl (asrService_stop throws r) = ctl r"
  "faceWorker (ctl (stop_face_loop throws r)) = faceWorker (ctl r)"
  "audioWorkletNode (ctl (stop_face_loop throws r)) = audioWorkletNode (ctl r)"
  "audioContext (ctl (stop_face_loop throws r)) = audioContext (ctl r)"
  "mediaRecorder (ctl (stop_face_loop throws r)) = mediaRecorder (ctl r)"
  "stream (ctl (stop_face_loop throws r)) = stream (ctl r)"
  "videoElement (ctl (stop_face_loop throws r)) = videoElement (ctl r)"
  "audioWorkletNode (ctl (stop_face_worker throws r)) = audioWorkletNode (ctl r)"
  "audioContext (ctl (stop_face_worker throws r)) = audioContext (ctl r)"
  "mediaRecorder (ctl (stop_face_worker throws r)) = mediaRecorder (ctl r)"
  "stream (ctl (stop_face_worker throws r)) = stream (ctl r)"
  "videoElement (ctl (stop_face_worker throws r)) = videoElement (ctl r)"
  "audioContext (ctl (stop_audio_node throws r)) = audioContext (ctl r)"
  "mediaRecorder (ctl (stop_audio_node throws r)) = mediaRecorder (ctl r)"
  "stream (ctl (stop_audio_node throws r)) = stream (ctl r)"
  "videoElement (ctl (stop_audio_node throws r)) = videoElement (ctl r)"
  "mediaRecorder (ctl (stop_audio_context throws r)) = mediaRecorder (ctl r)"
  "stream (ctl (stop_audio_context throws r)) = stream (ctl r)"
  "videoElement (ctl (stop_audio_context throws r)) = videoElement (ctl r)"
  "stream (ctl (stop_recorder throws r)) = stream (ctl r)"
  "videoElement (ctl (stop_recorder throws r)) = videoElement (ctl r)"
  by (simp_all add: stop_timer_def stop_face_loop_def stop_face_worker_def stop_audio_node_def
      stop_audio_context_def stop_recorder_def asrService_stop_def call_def Let_def
      split: option.splits)

lemma track_loop_ctl:
  "ctl (foldl (\<lambda>q track. call throws (TrackStop track) (\<lambda>c. c) q) r tracks) = ctl r"
  by (induction tracks arbitrary: r) (simp_all add: call_def)

lemma stream_frame: "videoElement (ctl (stop_stream throws r)) = videoElement (ctl r)"
  by (simp add: stop_stream_def stop_tracks_def Let_def track_loop_ctl split: option.splits)

lemma stop_follows_plan: "follows throws (teardown_plan s a) (stop throws now s a)"
proof (cases "\<not> isRunning s \<and> stream s = None")
  case True
  then show ?thesis by (simp add: stop_def teardown_plan_def follows_def)
next
  case False
  define r0 where "r0 = \<lparr>ctl = s\<lparr>isRunning := False, endTime := now\<rparr>, asr = a, raised = None,
                   calls = [], console = []\<rparr>"
  define r1 where "r1 = stop_timer throws r0"
  define r2 where "r2 = asrService_stop throws r1"
  define r3 where "r3 = stop_face_loop throws r2"
  define r4 where "r4 = stop_face_worker throws r3"
  define r5 where "r5 = stop_audio_node throws r4"
  define r6 where "r6 = stop_audio_context throws r5"
  define r7 where "r7 = stop_recorder throws r6"
  define r8 where "r8 = stop_stream throws r7"
  define r9 where "r9 = clear_video throws r8"
  define r10 where "r10 = dispatch_stopped throws r9"
  have st: "stop throws now s a = log_stopped r10"
    using False
    by (auto simp: stop_def Let_def r0_def r1_def r2_def r3_def r4_def r5_def r6_def r7_def
        r8_def r9_def r10_def)
  define p1 where "p1 = (if metricsIntervalId s \<noteq> None then [ClearInterval] else [])"
  define p2 where "p2 = p1 @ (if asr_active a then [RecognitionStop] else [])"
  define p3 where "p3 = p2 @ (if faceLoopId s \<noteq> None then [CancelAnimationFrame] else [])"
  define p4 where "p4 = p3 @ (if faceWorker s then [WorkerTerminate] else [])"
  define p5 where "p5 = p4 @ (if audioWorkletNode s then [NodeDisconnect] else [])"
  define p6 where "p6 = p5 @ (if audioContext s then [ContextClose] else [])"
  define p7 where "p7 = p6 @ (case mediaRecorder s of
             None \<Rightarrow> []
           | Some st \<Rightarrow> if st \<noteq> Inactive then [RecorderStop] else [])"
  define p8 where "p8 = p7 @ (case stream s of None \<Rightarrow> [] | Some tracks \<Rightarrow> map TrackStop tracks)"
  define p9 where "p9 = p8 @ (case videoElement s of None \<Rightarrow> [] | Some v \<Rightarrow> [ClearSrcObject])"
  have plan: "teardown_plan s a = p9 @ [DispatchStopped]"
    using False
    by (simp add: teardown_plan_def p1_def p2_def p3_def p4_def p5_def p6_def p7_def p8_def
        p9_def)
  have "follows throws [] r0"
    by (simp add: follows_def r0_def)
  from follows_steps(1) [OF this] have f1: "follows throws p1 r1"
    by (simp add: r1_def p1_def r0_def)
  have a1: "asr r1 = a"
    by (simp add: r1_def step_frames r0_def)
  from follows_asr [OF f1] have f2: "follows throws p2 r2"
    by (simp add: r2_def p2_def a1)
  have c2: "faceLoopId (ctl r2) = faceLoopId s" "faceWorker (ctl r2) = faceWorker s"
    "audioWorkletNode (ctl r2) = audioWorkletNode s" "audioContext (ctl r2) = audioContext s"
    "mediaRecorder (ctl r2) = mediaRecorder s" "stream (ctl r2) = stream s"
    "videoElement (ctl r2) = videoElement s"
    by (simp_all add: r2_def r1_def step_frames r0_def)
  from follows_steps(2) [OF f2] have f3: "follows throws p3 r3"
    by (simp add: r3_def p3_def c2)
  have c3: "faceWorker (ctl r3) = faceWorker s"
    "audioWorkletNode (ctl r3) = audioWorkletNode s" "audioContext (ctl r3) = audioContext s"
    "mediaRecorder (ctl r3) = mediaRecorder s" "stream (ctl r3) = stream s"
    "videoElement (ctl r3) = videoElement s"
    by (simp_all add: r3_def step_frames c2)
  from follows_steps(3) [OF f3] have f4: "follows throws p4 r4"
    by (simp add: r4_def p4_def c3)
  have c4: "audioWorkletNode (ctl r4) = audioWorkletNode s" "audioContext (ctl r4) = audioContext s"
    "mediaRecorder (ctl r4) = mediaRecorder s" "stream (ctl r4) = stream s"
    "videoElement (ctl r4) = videoElement s"
    by (simp_all add: r4_def step_frames c3)
  from follows_steps(4) [OF f4] have f5: "follows throws p5 r5"
    by (simp add: r5_def p5_def c4)
  have c5: "audioContext (ctl r5) = audioContext s"
    "mediaRecorder (ctl r5) = mediaRecorder s" "stream (ctl r5) = stream s"
    "videoElement (ctl r5) = videoElement s"
    by (simp_all add: r5_def step_frames c4)
  from follows_steps(5) [OF f5] have f6: "follows throws p6 r6"
    by (simp add: r6_def p6_def c5)
  have c6: "mediaRecorder (ctl r6) = mediaRecorder s" "stream (ctl r6) = stream s"
    "videoElement (ctl r6) = videoElement s"
    by (simp_all add: r6_def step_frames c5)
  from follows_steps(6) [OF f6] have f7: "follows throws p7 r7"
    by (simp add: r7_def p7_def c6)
  have c7: "stream (ctl r7) = stream s" "videoElement (ctl r7) = videoElement s"
    by (simp_all add: r7_def step_frames c6)
  from follows_stream [OF f7] have f8: "follows throws p8 r8"
    by (simp add: r8_def p8_def c7)
  have c8: "videoElement (ctl r8) = videoElement s"
    by (simp add: r8_def stream_frame c7)
  from follows_steps(7) [OF f8] have f9: "follows throws p9 r9"
    by (simp add: r9_def p9_def c8)
  from follows_steps(8) [OF f9] have "follows throws (p9 @ [DispatchStopped]) r10"
    by (simp add: r10_def)
  then show ?thesis
    by (simp add: st plan follows_log)
qed

lemmas stop_steps =
  stop_def stop_timer_def stop_face_loop_def stop_face_worker_def stop_audio_node_def
  stop_audio_context_def stop_recorder_def stop_stream_def stop_tracks_def clear_video_def
  dispatch_stopped_def log_stopped_def asrService_stop_def call_def

lemma close_failure_run:
  "stop (\<lambda>c. c = ContextClose) 5000 controller_running asr_running =
     \<lparr>ctl = controller_running
        \<lparr>isRunning := False, endTime := 5000, metricsIntervalId := None, faceLoopId := None,
         faceWorker := False, audioWorkletNode := False\<rparr>,
      asr = asr_running\<lparr>asr_isRunning := False\<rparr>,
      raised = Some ContextClose,
      calls = [ClearInterval, RecognitionStop, CancelAnimationFrame, WorkerTerminate,
               NodeDisconnect],
      console = []\<rparr>"
  by (simp add: stop_steps controller_running_def controller_created_def asr_running_def)

lemma plan_of_running_session:
  "teardown_plan controller_running asr_running =
     [ClearInterval, RecognitionStop, CancelAnimationFrame, WorkerTerminate, NodeDisconnect,
      ContextClose, RecorderStop, TrackStop 0, TrackStop 1, ClearSrcObject, DispatchStopped]"
  by (simp add: teardown_plan_def controller_running_def controller_created_def asr_running_def
      asr_active_def)

text \<open>
  C3, as the code has it. \<open>stop()\<close> makes the calls of its plan in order (with no call
  throwing, the completed calls are the plan). The first call that throws, other than the
  recogniser's \<open>stop()\<close>, ends the run: its error is what \<open>stop()\<close> throws to the caller,
  the calls after it are not made, and \<open>stop()\<close> logs neither the error nor its
  completion. So every throwing call of the plan other than the recogniser's makes
  \<open>stop()\<close> throw. The recogniser's error is caught and logged by the ASR wrapper and the
  run goes on. When no other call throws, \<open>stop()\<close> returns normally; if the session was
  running or held a stream, every handle is then released, and the console shows the
  ASR error line exactly when the recogniser was running and its \<open>stop()\<close> threw,
  followed by the completion line.
\<close>

theorem stop_isolates_only_asr_errors:
  "raised (stop throws now s a) =
     find (\<lambda>k. k \<noteq> RecognitionStop \<and> throws k) (teardown_plan s a)
   \<and> calls (stop throws now s a) =
     filter (\<lambda>k. \<not> throws k)
       (takeWhile (\<lambda>k. k = RecognitionStop \<or> \<not> throws k) (teardown_plan s a))
   \<and> calls (stop (\<lambda>k. False) now s a) = teardown_plan s a
   \<and> (c \<in> set (teardown_plan s a) \<and> c \<noteq> RecognitionStop \<and> throws c \<longrightarrow>
        (\<exists>k. raised (stop throws now s a) = Some k \<and> k \<noteq> RecognitionStop \<and> throws k))
   \<and> (raised (stop throws now s a) = Some c \<longrightarrow>
      throws c \<and> c \<noteq> RecognitionStop
      \<and> (console (stop throws now s a) = []
          \<or> console (stop throws now s a) = [''ASR stop error'']))
   \<and> ((\<forall>k. k \<noteq> RecognitionStop \<longrightarrow> \<not> throws k) \<longrightarrow>
        raised (stop throws now s a) = None
        \<and> (isRunning s \<or> stream s \<noteq> None \<longrightarrow>
             released (ctl (stop throws now s a))
             \<and> console (stop throws now s a) =
                 (if asr_instance a \<and> asr_recognition a \<and> asr_isRunning a
                     \<and> throws RecognitionStop
                  then [''ASR stop error''] else [])
                 @ [''Analytics controller stopped'']))"
proof -
  have first: "raised (stop throws now s a) =
     find (\<lambda>k. k \<noteq> RecognitionStop \<and> throws k) (teardown_plan s a)"
    and made: "calls (stop throws now s a) =
     filter (\<lambda>k. \<not> throws k)
       (takeWhile (\<lambda>k. k = RecognitionStop \<or> \<not> throws k) (teardown_plan s a))"
    using stop_follows_plan [of throws s a now] by (simp_all add: follows_def)
  have plan: "calls (stop (\<lambda>k. False) now s a) = teardown_plan s a"
    using stop_follows_plan [of "\<lambda>k. False" s a now] by (simp add: follows_def)
  have thrown: "\<exists>k. raised (stop throws now s a) = Some k \<and> k \<noteq> RecognitionStop \<and> throws k"
    if "c \<in> set (teardown_plan s a) \<and> c \<noteq> RecognitionStop \<and> throws c"
  proof -
    from that have "find (\<lambda>k. k \<noteq> RecognitionStop \<and> throws k) (teardown_plan s a) \<noteq> None"
      by (auto simp: find_None_iff)
    then obtain k where k: "raised (stop throws now s a) = Some k"
      by (auto simp: first)
    with stop_escaped [of throws now s a] show ?thesis
      by (simp add: escaped_ok_def)
  qed
  have escaped: "throws c \<and> c \<noteq> RecognitionStop
      \<and> (console (stop throws now s a) = []
          \<or> console (stop throws now s a) = [''ASR stop error''])"
    if "raised (stop throws now s a) = Some c"
    using that stop_escaped [of throws now s a] stop_escaped_console [of throws now s a c]
    by (simp add: escaped_ok_def)
  have normal: "raised (stop throws now s a) = None
        \<and> (isRunning s \<or> stream s \<noteq> None \<longrightarrow>
             released (ctl (stop throws now s a))
             \<and> console (stop throws now s a) =
                 (if asr_instance a \<and> asr_recognition a \<and> asr_isRunning a
                     \<and> throws RecognitionStop
                  then [''ASR stop error''] else [])
                 @ [''Analytics controller stopped''])"
    if "\<forall>k. k \<noteq> RecognitionStop \<longrightarrow> \<not> throws k"
  proof (intro conjI impI)
    from that have q: "quiet throws" by (simp add: quiet_def)
    show "raised (stop throws now s a) = None"
    proof (cases "isRunning s \<or> stream s \<noteq> None")
      case True
      then show ?thesis by (rule stop_quiet(1) [OF q])
    next
      case False
      then show ?thesis by (simp add: stop_def)
    qed
    assume busy: "isRunning s \<or> stream s \<noteq> None"
    show "released (ctl (stop throws now s a))"
      by (simp add: stop_quiet(2) [OF q busy] released_def)
        (cases "mediaRecorder s"; cases "videoElement s"; simp)
    show "console (stop throws now s a) =
                 (if asr_instance a \<and> asr_recognition a \<and> asr_isRunning a
                     \<and> throws RecognitionStop
                  then [''ASR stop error''] else [])
                 @ [''Analytics controller stopped'']"
      by (rule stop_quiet(3) [OF q busy])
  qed
  from first made plan thrown escaped normal show ?thesis
    by blast
qed

theorem stop_isolates_only_asr_errors_witness:
  "raised (stop (\<lambda>c. c = RecognitionStop) 5000 controller_running asr_running) = None
   \<and> released (ctl (stop (\<lambda>c. c = RecognitionStop) 5000 controller_running asr_running))
   \<and> console (stop (\<lambda>c. c = RecognitionStop) 5000 controller_running asr_running) =
       [''ASR stop error'', ''Analytics controller stopped'']
   \<and> ContextClose \<in> set (teardown_plan controller_running asr_running)
   \<and> raised (stop (\<lambda>c. c = ContextClose) 5000 controller_running asr_running) = Some ContextClose
   \<and> console (stop (\<lambda>c. c = ContextClose) 5000 controller_running asr_running) = []
   \<and> raised (stop (\<lambda>c. c = TrackStop 1) 5000 controller_running asr_running) = Some (TrackStop 1)
   \<and> calls (stop (\<lambda>c. c = TrackStop 1) 5000 controller_running asr_running) =
       [ClearInterval, RecognitionStop, CancelAnimationFrame, WorkerTerminate, NodeDisconnect,
        ContextClose, RecorderStop, TrackStop 0]"
proof -
  have caught:
    "raised (stop (\<lambda>c. c = RecognitionStop) 5000 controller_running asr_running) = None
     \<and> released (ctl (stop (\<lambda>c. c = RecognitionStop) 5000 controller_running asr_running))
     \<and> console (stop (\<lambda>c. c = RecognitionStop) 5000 controller_running asr_running) =
         [''ASR stop error'', ''Analytics controller stopped'']"
  proof -
    have "(\<forall>k. k \<noteq> RecognitionStop \<longrightarrow> \<not> k = RecognitionStop) \<longrightarrow>
        raised (stop (\<lambda>c. c = RecognitionStop) 5000 controller_running asr_running) = None
        \<and> (isRunning controller_running \<or> stream controller_running \<noteq> None \<longrightarrow>
             released (ctl (stop (\<lambda>c. c = RecognitionStop) 5000 controller_running asr_running))
             \<and> console (stop (\<lambda>c. c = RecognitionStop) 5000 controller_running asr_running) =
                 (if asr_instance asr_running \<and> asr_recognition asr_running
                     \<and> asr_isRunning asr_running \<and> RecognitionStop = RecognitionStop
                  then [''ASR stop error''] else [])
                 @ [''Analytics controller stopped''])"
      using stop_isolates_only_asr_errors
        [of "\<lambda>c. c = RecognitionStop" 5000 controller_running asr_running ContextClose]
      by blast
    then show ?thesis
      by (simp add: controller_running_def controller_created_def asr_running_def)
  qed
  have planned: "ContextClose \<in> set (teardown_plan controller_running asr_running)"
    by (simp add: plan_of_running_session)
  have thrown:
    "raised (stop (\<lambda>c. c = ContextClose) 5000 controller_running asr_running) = Some ContextClose"
    using stop_isolates_only_asr_errors
      [of "\<lambda>c. c = ContextClose" 5000 controller_running asr_running ContextClose] planned
    by auto
  have silent: "console (stop (\<lambda>c. c = ContextClose) 5000 controller_running asr_running) = []"
    using stop_isolates_only_asr_errors
      [of "\<lambda>c. c = ContextClose" 5000 controller_running asr_running ContextClose] thrown
    by (simp add: close_failure_run)
  have track:
    "raised (stop (\<lambda>c. c = TrackStop 1) 5000 controller_running asr_running) = Some (TrackStop 1)
     \<and> calls (stop (\<lambda>c. c = TrackStop 1) 5000 controller_running asr_running) =
       [ClearInterval, RecognitionStop, CancelAnimationFrame, WorkerTerminate, NodeDisconnect,
        ContextClose, RecorderStop, TrackStop 0]"
    using stop_isolates_only_asr_errors
      [of "\<lambda>c. c = TrackStop 1" 5000 controller_running asr_running ContextClose]
    by (simp add: plan_of_running_session)
  from caught planned thrown silent track show ?thesis by simp
qed

text \<open>
  The claim as stated fails: when \<open>audioContext.close()\<close> rejects, \<open>stop()\<close> throws
  that error to its caller after five completed calls; the recorder and the tracks are
  not stopped, the stream is still held, and nothing is logged.
\<close>

theorem close_failure_aborts_stop:
  "raised (stop (\<lambda>c. c = ContextClose) 5000 controller_running asr_running) = Some ContextClose
   \<and> calls (stop (\<lambda>c. c = ContextClose) 5000 controller_running asr_running) =
       [ClearInterval, RecognitionStop, CancelAnimationFrame, WorkerTerminate, NodeDisconnect]
   \<and> stream (ctl (stop (\<lambda>c. c = ContextClose) 5000 controller_running asr_running)) = Some [0, 1]
   \<and> mediaRecorder (ctl (stop (\<lambda>c. c = ContextClose) 5000 controller_running asr_running)) =
       Some Recording
   \<and> console (stop (\<lambda>c. c = ContextClose) 5000 controller_running asr_running) = []"
  by (simp add: close_failure_run) (simp add: controller_running_def)

end
